theory Spec2Isabelle
  imports Main
begin

unbundle bit_operations_syntax

section \<open>Salesforce authentication client for Expo: a shallow embedding\<close>

text \<open>
  The development follows the TypeScript sources: \<^verbatim>\<open>errors.ts\<close> (the error codes),
  \<^verbatim>\<open>storage.ts\<close> (the two token stores) and \<^verbatim>\<open>client.ts\<close> (the OAuth client).
  Everything outside the repository is a parameter: the host platform (random numbers,
  the AES cipher of crypto-es, the browser session, \<^verbatim>\<open>fetch\<close>) is a record of functions,
  and the four key/value media the stores write to, the log of network requests and the
  number of random draws made so far are the fields of an explicit world that every
  operation takes and returns.  An \<^verbatim>\<open>async\<close> function that throws is a function that
  returns \<open>Inl\<close> of what was thrown.
\<close>

subsection \<open>JavaScript values\<close>

text \<open>
  A value of type \<^verbatim>\<open>string | null\<close> is a \<open>string option\<close>.  JavaScript's truthiness
  (\<^verbatim>\<open>!x\<close>, \<^verbatim>\<open>Boolean(x)\<close>, \<^verbatim>\<open>x && y\<close>) holds of a string exactly when it is not empty,
  and never of \<^verbatim>\<open>null\<close> or \<^verbatim>\<open>undefined\<close>.
\<close>

definition truthy :: "string option \<Rightarrow> bool" where
  "truthy x = (case x of None \<Rightarrow> False | Some s \<Rightarrow> s \<noteq> [])"

subsection \<open>Errors (\<^verbatim>\<open>errors.ts\<close>)\<close>

datatype SalesforceAuthErrorCode =
  auth_session_failed | invalid_state | not_authenticated
  | token_exchange_failed | userinfo_request_failed

text \<open>
  What an operation can throw: a \<^verbatim>\<open>SalesforceAuthError\<close> with its code, the \<^verbatim>\<open>TypeError\<close>
  of a rejected \<^verbatim>\<open>fetch\<close> or of \<^verbatim>\<open>new URL\<close> on a malformed URL, and the error of
  crypto-es when decrypted bytes are not UTF-8.
\<close>

datatype thrown = SalesforceAuthError SalesforceAuthErrorCode | TypeError | MalformedUtf8

subsection \<open>The world and the platform\<close>

type_synonym URLSearchParams = "(string \<times> string) list"

text \<open>
  A request as \<^verbatim>\<open>fetch\<close> receives it.  A form-encoded body is kept as the list of
  pairs the \<^verbatim>\<open>URLSearchParams\<close> object holds; its serialisation is the platform's.
\<close>

record request =
  url :: string
  "method" :: string
  headers :: "(string \<times> string) list"
  body :: URLSearchParams

record world =
  AsyncStorage :: "string \<rightharpoonup> string"
  SecureStore :: "string \<rightharpoonup> string"
  localStorage :: "string \<rightharpoonup> string"
  sessionStorage :: "string \<rightharpoonup> string"
  network :: "request list"
  draws :: nat

definition empty_world :: world where
  "empty_world = \<lparr>AsyncStorage = Map.empty, SecureStore = Map.empty,
     localStorage = Map.empty, sessionStorage = Map.empty, network = [], draws = 0\<rparr>"

text \<open>The four media of the token stores, without the request log and the draw count.\<close>

definition stores :: "world \<Rightarrow>
    (string \<rightharpoonup> string) \<times> (string \<rightharpoonup> string) \<times> (string \<rightharpoonup> string) \<times> (string \<rightharpoonup> string)" where
  "stores w = (AsyncStorage w, SecureStore w, localStorage w, sessionStorage w)"

text \<open>
  The host platform.  \<open>randomString p i n\<close> is the string the \<open>i\<close>-th random draw gives
  when \<open>n\<close> is the length asked for.  \<open>AES_encrypt p i v k\<close> is
  \<^verbatim>\<open>CryptoES.AES.encrypt(v, k).toString()\<close> when the salt is the \<open>i\<close>-th draw, and
  \<open>AES_decrypt p c k\<close> is \<^verbatim>\<open>CryptoES.AES.decrypt(c, k).toString(CryptoES.enc.Utf8)\<close>,
  \<open>None\<close> when it throws.
\<close>

record platform =
  OS :: string
  makeRedirectUri :: string
  randomString :: "nat \<Rightarrow> nat \<Rightarrow> string"
  AES_encrypt :: "nat \<Rightarrow> string \<Rightarrow> string \<Rightarrow> string"
  AES_decrypt :: "string \<Rightarrow> string \<Rightarrow> string option"

text \<open>
  What the proofs about the encrypted store ask of the platform: decryption with the
  key of the encryption gives the value back, a ciphertext is never the empty string
  (crypto-es returns the salted OpenSSL format), and a random string of the default
  length is not empty.
\<close>

definition defaultLength :: nat where
  "defaultLength = 43"

definition platform_ok :: "platform \<Rightarrow> bool" where
  "platform_ok p \<longleftrightarrow>
     (\<forall>i v k. AES_decrypt p (AES_encrypt p i v k) k = Some v) \<and>
     (\<forall>i v k. AES_encrypt p i v k \<noteq> []) \<and>
     (\<forall>i. randomString p i defaultLength \<noteq> [])"

text \<open>
  Modelled from the spec: \<^verbatim>\<open>generateRandomString\<close> of \<^verbatim>\<open>utils.ts\<close>, which is not among
  the sources.  The spec gives \<^verbatim>\<open>randomString(length = 43) -> string\<close>, a fresh
  cryptographically strong URL-safe string on every call: the call consumes one draw.
\<close>

definition generateRandomString :: "platform \<Rightarrow> nat \<Rightarrow> world \<Rightarrow> string \<times> world" where
  "generateRandomString p n w = (randomString p (draws w) n, w\<lparr>draws := Suc (draws w)\<rparr>)"

subsection \<open>The token stores (\<^verbatim>\<open>storage.ts\<close>)\<close>

datatype Storage = SecureStorage string | BrowserStorage string

subsubsection \<open>\<^verbatim>\<open>SecureStorage\<close>\<close>

definition getStorageKey :: "string \<Rightarrow> string \<Rightarrow> string" where
  "getStorageKey ident key = ident @ ''.'' @ key"

definition decrypt :: "platform \<Rightarrow> string \<Rightarrow> string \<Rightarrow> world \<Rightarrow> thrown + string option" where
  "decrypt p key v w =
     (let encryptionKey = SecureStore w key in
      if \<not> truthy encryptionKey then Inr None
      else (case AES_decrypt p v (the encryptionKey) of
              None \<Rightarrow> Inl MalformedUtf8
            | Some s \<Rightarrow> Inr (Some s)))"

definition encrypt :: "platform \<Rightarrow> string \<Rightarrow> string \<Rightarrow> world \<Rightarrow> string \<times> world" where
  "encrypt p key v w =
     (let (encryptionKey, w1) = generateRandomString p defaultLength w;
          encrypted = AES_encrypt p (draws w1) v encryptionKey;
          w2 = w1\<lparr>draws := Suc (draws w1)\<rparr>
      in (encrypted, w2\<lparr>SecureStore := (SecureStore w2)(key \<mapsto> encryptionKey)\<rparr>))"

definition SecureStorage_getItem ::
    "platform \<Rightarrow> string \<Rightarrow> string \<Rightarrow> world \<Rightarrow> thrown + string option" where
  "SecureStorage_getItem p ident key w =
     (let storageKey = getStorageKey ident key;
          encrypted = AsyncStorage w storageKey
      in if \<not> truthy encrypted then Inr None
         else decrypt p storageKey (the encrypted) w)"

definition SecureStorage_setItem ::
    "platform \<Rightarrow> string \<Rightarrow> string \<Rightarrow> string \<Rightarrow> world \<Rightarrow> world" where
  "SecureStorage_setItem p ident key v w =
     (let storageKey = getStorageKey ident key;
          (encrypted, w1) = encrypt p storageKey v w
      in w1\<lparr>AsyncStorage := (AsyncStorage w1)(storageKey \<mapsto> encrypted)\<rparr>)"

definition SecureStorage_removeItem :: "string \<Rightarrow> string \<Rightarrow> world \<Rightarrow> world" where
  "SecureStorage_removeItem ident key w =
     (let storageKey = getStorageKey ident key
      in w\<lparr>AsyncStorage := (AsyncStorage w)(storageKey := None),
           SecureStore := (SecureStore w)(storageKey := None)\<rparr>)"

subsubsection \<open>\<^verbatim>\<open>BrowserStorage\<close>\<close>

definition keyPrefix :: string where
  "keyPrefix = ''salesforce_auth''"

definition getKey :: "string \<Rightarrow> string option \<Rightarrow> string" where
  "getKey appId item =
     (case item of
        None \<Rightarrow> keyPrefix @ '':'' @ appId
      | Some i \<Rightarrow> keyPrefix @ '':'' @ appId @ '':'' @ i)"

definition BrowserStorage_getItem :: "string \<Rightarrow> string \<Rightarrow> world \<Rightarrow> string option" where
  "BrowserStorage_getItem appId key w =
     (if key = ''signInSession''
      then (case sessionStorage w (getKey appId (Some key)) of
              Some v \<Rightarrow> Some v
            | None \<Rightarrow> sessionStorage w (getKey appId None))
      else localStorage w (getKey appId (Some key)))"

definition BrowserStorage_setItem :: "string \<Rightarrow> string \<Rightarrow> string \<Rightarrow> world \<Rightarrow> world" where
  "BrowserStorage_setItem appId key v w =
     (if key = ''signInSession''
      then w\<lparr>sessionStorage := (sessionStorage w)(getKey appId (Some key) \<mapsto> v)\<rparr>
      else w\<lparr>localStorage := (localStorage w)(getKey appId (Some key) \<mapsto> v)\<rparr>)"

definition BrowserStorage_removeItem :: "string \<Rightarrow> string \<Rightarrow> world \<Rightarrow> world" where
  "BrowserStorage_removeItem appId key w =
     (if key = ''signInSession''
      then w\<lparr>sessionStorage := (sessionStorage w)(getKey appId (Some key) := None)\<rparr>
      else w\<lparr>localStorage := (localStorage w)(getKey appId (Some key) := None)\<rparr>)"

subsubsection \<open>The \<^verbatim>\<open>Storage\<close> interface, over both variants\<close>

fun getItem :: "platform \<Rightarrow> Storage \<Rightarrow> string \<Rightarrow> world \<Rightarrow> thrown + string option" where
  "getItem p (SecureStorage ident) key w = SecureStorage_getItem p ident key w"
| "getItem p (BrowserStorage appId) key w = Inr (BrowserStorage_getItem appId key w)"

fun setItem :: "platform \<Rightarrow> Storage \<Rightarrow> string \<Rightarrow> string \<Rightarrow> world \<Rightarrow> world" where
  "setItem p (SecureStorage ident) key v w = SecureStorage_setItem p ident key v w"
| "setItem p (BrowserStorage appId) key v w = BrowserStorage_setItem appId key v w"

fun removeItem :: "Storage \<Rightarrow> string \<Rightarrow> world \<Rightarrow> world" where
  "removeItem (SecureStorage ident) key w = SecureStorage_removeItem ident key w"
| "removeItem (BrowserStorage appId) key w = BrowserStorage_removeItem appId key w"

text \<open>
  A sequence of calls on one store, run in order, and the dictionary such a sequence
  describes: the last value set under a key unless the key was removed since.
\<close>

datatype store_call = SetItem string string | RemoveItem string

fun call :: "platform \<Rightarrow> Storage \<Rightarrow> world \<Rightarrow> store_call \<Rightarrow> world" where
  "call p st w (SetItem k v) = setItem p st k v w"
| "call p st w (RemoveItem k) = removeItem st k w"

definition calls :: "platform \<Rightarrow> Storage \<Rightarrow> store_call list \<Rightarrow> world \<Rightarrow> world" where
  "calls p st cs w = foldl (call p st) w cs"

fun dictionary_call :: "(string \<rightharpoonup> string) \<Rightarrow> store_call \<Rightarrow> (string \<rightharpoonup> string)" where
  "dictionary_call m (SetItem k v) = m(k \<mapsto> v)"
| "dictionary_call m (RemoveItem k) = m(k := None)"

definition dictionary :: "store_call list \<Rightarrow> (string \<rightharpoonup> string)" where
  "dictionary cs = foldl dictionary_call Map.empty cs"


subsection \<open>PKCE code challenge (\<^verbatim>\<open>utils.ts\<close>)\<close>

text \<open>
  Modelled from the spec: \<^verbatim>\<open>generateCodeChallenge\<close> of \<^verbatim>\<open>utils.ts\<close>, which is not among
  the sources.  The spec gives \<^verbatim>\<open>codeChallenge(verifier)\<close> as the SHA-256 digest of the
  verifier, base64url-encoded with no padding (PKCE method S256).  SHA-256 follows
  FIPS 180-4 on 32-bit words kept as natural numbers with the wrap-around written out;
  a string is the list of its bytes.
\<close>

type_synonym u32 = nat
type_synonym byte = nat

definition add32 :: "u32 \<Rightarrow> u32 \<Rightarrow> u32" where
  "add32 x y = (x + y) mod 4294967296"

definition not32 :: "u32 \<Rightarrow> u32" where
  "not32 x = 4294967295 - x"

definition rotr :: "nat \<Rightarrow> u32 \<Rightarrow> u32" where
  "rotr n x = x div 2 ^ n + (x mod 2 ^ n) * 2 ^ (32 - n)"

definition shr :: "nat \<Rightarrow> u32 \<Rightarrow> u32" where
  "shr n x = x div 2 ^ n"

definition Ch :: "u32 \<Rightarrow> u32 \<Rightarrow> u32 \<Rightarrow> u32" where
  "Ch x y z = (x AND y) XOR (not32 x AND z)"

definition Maj :: "u32 \<Rightarrow> u32 \<Rightarrow> u32 \<Rightarrow> u32" where
  "Maj x y z = (x AND y) XOR (x AND z) XOR (y AND z)"

definition Sigma0 :: "u32 \<Rightarrow> u32" where
  "Sigma0 x = rotr 2 x XOR rotr 13 x XOR rotr 22 x"

definition Sigma1 :: "u32 \<Rightarrow> u32" where
  "Sigma1 x = rotr 6 x XOR rotr 11 x XOR rotr 25 x"

definition sigma0 :: "u32 \<Rightarrow> u32" where
  "sigma0 x = rotr 7 x XOR rotr 18 x XOR shr 3 x"

definition sigma1 :: "u32 \<Rightarrow> u32" where
  "sigma1 x = rotr 17 x XOR rotr 19 x XOR shr 10 x"

definition K256 :: "u32 list" where
  "K256 =
   [1116352408, 1899447441, 3049323471, 3921009573, 961987163, 1508970993, 2453635748, 2870763221,
    3624381080, 310598401, 607225278, 1426881987, 1925078388, 2162078206, 2614888103, 3248222580,
    3835390401, 4022224774, 264347078, 604807628, 770255983, 1249150122, 1555081692, 1996064986,
    2554220882, 2821834349, 2952996808, 3210313671, 3336571891, 3584528711, 113926993, 338241895,
    666307205, 773529912, 1294757372, 1396182291, 1695183700, 1986661051, 2177026350, 2456956037,
    2730485921, 2820302411, 3259730800, 3345764771, 3516065817, 3600352804, 4094571909, 275423344,
    430227734, 506948616, 659060556, 883997877, 958139571, 1322822218, 1537002063, 1747873779,
    1955562222, 2024104815, 2227730452, 2361852424, 2428436474, 2756734187, 3204031479, 3329325298]"

type_synonym hash = "u32 \<times> u32 \<times> u32 \<times> u32 \<times> u32 \<times> u32 \<times> u32 \<times> u32"

definition H256 :: hash where
  "H256 = (1779033703, 3144134277, 1013904242, 2773480762,
           1359893119, 2600822924, 528734635, 1541459225)"

definition bytes32 :: "u32 \<Rightarrow> byte list" where
  "bytes32 x = [x div 16777216 mod 256, x div 65536 mod 256, x div 256 mod 256, x mod 256]"

text \<open>Padding: the byte 128, zeros up to 56 modulo 64, the length in bits on 8 bytes.\<close>

definition pad :: "byte list \<Rightarrow> byte list" where
  "pad m =
     (let l = length m;
          k = (119 - l mod 64) mod 64;
          bits = 8 * l
      in m @ [128] @ replicate k 0 @
         bytes32 (bits div 4294967296 mod 4294967296) @ bytes32 (bits mod 4294967296))"

fun be32 :: "byte list \<Rightarrow> u32 list" where
  "be32 (a # b # c # d # bs) = (((a * 256 + b) * 256 + c) * 256 + d) # be32 bs"
| "be32 _ = []"

text \<open>
  The message schedule is kept as a window of the last sixteen words: the head is the
  word of the current round, and the word sixteen rounds ahead is appended.
\<close>

definition next_word :: "u32 list \<Rightarrow> u32" where
  "next_word ws = add32 (add32 (add32 (sigma1 (ws ! 14)) (ws ! 9)) (sigma0 (ws ! 1))) (ws ! 0)"

fun sha_round :: "hash \<Rightarrow> u32 \<times> u32 \<Rightarrow> hash" where
  "sha_round (a, b, c, d, e, f, g, h) (k, w) =
     (let t1 = add32 (add32 (add32 (add32 h (Sigma1 e)) (Ch e f g)) k) w;
          t2 = add32 (Sigma0 a) (Maj a b c)
      in (add32 t1 t2, a, b, c, add32 d t1, e, f, g))"

fun rounds :: "u32 list \<Rightarrow> u32 list \<Rightarrow> hash \<Rightarrow> hash" where
  "rounds [] ws hs = hs"
| "rounds (k # ks) ws hs = rounds ks (tl ws @ [next_word ws]) (sha_round hs (k, hd ws))"

fun add_hash :: "hash \<Rightarrow> hash \<Rightarrow> hash" where
  "add_hash (a, b, c, d, e, f, g, h) (a', b', c', d', e', f', g', h') =
     (add32 a a', add32 b b', add32 c c', add32 d d',
      add32 e e', add32 f f', add32 g g', add32 h h')"

definition compress :: "hash \<Rightarrow> byte list \<Rightarrow> hash" where
  "compress hs block = add_hash hs (rounds K256 (be32 block) hs)"

fun blocks :: "nat \<Rightarrow> byte list \<Rightarrow> hash \<Rightarrow> hash" where
  "blocks 0 bs hs = hs"
| "blocks (Suc n) bs hs = blocks n (drop 64 bs) (compress hs (take 64 bs))"

fun hash_bytes :: "hash \<Rightarrow> byte list" where
  "hash_bytes (a, b, c, d, e, f, g, h) =
     bytes32 a @ bytes32 b @ bytes32 c @ bytes32 d @ bytes32 e @ bytes32 f @ bytes32 g @ bytes32 h"

definition SHA256 :: "byte list \<Rightarrow> byte list" where
  "SHA256 m = (let bs = pad m in hash_bytes (blocks (length bs div 64) bs H256))"

text \<open>Base64 with the URL-safe alphabet of RFC 4648, section 5, and no padding.\<close>

definition alphabet :: string where
  "alphabet = ''ABCDEFGHIJKLMNOPQRSTUVWXYZabcdefghijklmnopqrstuvwxyz0123456789-_''"

fun base64url :: "byte list \<Rightarrow> string" where
  "base64url (a # b # c # bs) =
     (let n = a * 65536 + b * 256 + c
      in alphabet ! (n div 262144) # alphabet ! (n div 4096 mod 64) #
         alphabet ! (n div 64 mod 64) # alphabet ! (n mod 64) # base64url bs)"
| "base64url [a, b] =
     (let n = a * 65536 + b * 256
      in [alphabet ! (n div 262144), alphabet ! (n div 4096 mod 64), alphabet ! (n div 64 mod 64)])"
| "base64url [a] =
     (let n = a * 65536
      in [alphabet ! (n div 262144), alphabet ! (n div 4096 mod 64)])"
| "base64url [] = []"

text \<open>
  The decoder of the same alphabet, to state that the encoding loses nothing: the value
  of a character is its position in the alphabet.
\<close>

definition sextet :: "char \<Rightarrow> nat" where
  "sextet ch = length (takeWhile (\<lambda>x. x \<noteq> ch) alphabet)"

fun base64url_decode :: "string \<Rightarrow> byte list" where
  "base64url_decode (p # q # r # s # cs) =
     (let n = ((sextet p * 64 + sextet q) * 64 + sextet r) * 64 + sextet s
      in n div 65536 # n div 256 mod 256 # n mod 256 # base64url_decode cs)"
| "base64url_decode [p, q, r] =
     (let n = ((sextet p * 64 + sextet q) * 64 + sextet r) * 64
      in [n div 65536, n div 256 mod 256])"
| "base64url_decode [p, q] =
     (let n = (sextet p * 64 + sextet q) * 4096
      in [n div 65536])"
| "base64url_decode [p] = []"
| "base64url_decode [] = []"

definition generateCodeChallenge :: "string \<Rightarrow> string" where
  "generateCodeChallenge codeVerifier = base64url (SHA256 (map of_char codeVerifier))"

subsection \<open>The client (\<^verbatim>\<open>client.ts\<close>)\<close>

text \<open>
  The configuration; an optional field is an \<open>option\<close>.  The \<^verbatim>\<open>prompt\<close> field is
  stored by the constructor and read nowhere, and is left out.
\<close>

record SalesforceConfig =
  clientId :: string
  clientSecret :: "string option"
  redirectUri :: "string option"
  sandbox :: "bool option"
  perferEphemeralSession :: "bool option"

record UserInfo =
  name :: string
  email :: string
  picture :: string
  preferred_username :: string
  profile :: string

text \<open>The JSON body of the token endpoint, with the two fields the client reads.\<close>

record TokenData =
  access_token :: string
  refresh_token :: "string option"

text \<open>
  What \<^verbatim>\<open>await fetch(...)\<close> gives: the promise is rejected (no HTTP response at all), or
  it resolves to a response with its \<^verbatim>\<open>ok\<close> flag and its JSON body.
\<close>

datatype 'a fetch_result = Rejected | Response bool 'a

text \<open>
  The \<^verbatim>\<open>url\<close> of a successful browser session as \<^verbatim>\<open>new URL\<close> reads it: \<open>Malformed\<close>
  when the constructor throws, else the \<^verbatim>\<open>searchParams\<close> of the URL.
\<close>

datatype RedirectURL = Malformed | Redirect URLSearchParams

datatype WebBrowserAuthSessionResult =
  success RedirectURL | cancel | dismiss | opened | locked

text \<open>\<^verbatim>\<open>searchParams.get(name)\<close>: the first value under the name, or \<^verbatim>\<open>null\<close>.\<close>

definition searchParams_get :: "URLSearchParams \<Rightarrow> string \<Rightarrow> string option" where
  "searchParams_get sp n = map_of sp n"

record SalesforceAuthClient =
  config :: SalesforceConfig
  storage :: Storage
  authEndpoint :: string
  tokenEndpoint :: string
  revocationEndpoint :: string
  userInfoEndpoint :: string
  preferEphemeralSession :: bool

definition new_SalesforceAuthClient :: "platform \<Rightarrow> SalesforceConfig \<Rightarrow> SalesforceAuthClient" where
  "new_SalesforceAuthClient p cfg =
     (let domain = (if sandbox cfg = Some True then ''test.salesforce.com''
                    else ''login.salesforce.com'')
      in \<lparr>config = cfg,
          storage = (if OS p = ''web'' then BrowserStorage (clientId cfg)
                     else SecureStorage (''salesforce.'' @ clientId cfg)),
          authEndpoint = ''https://'' @ domain @ ''/services/oauth2/authorize'',
          tokenEndpoint = ''https://'' @ domain @ ''/services/oauth2/token'',
          revocationEndpoint = ''https://'' @ domain @ ''/services/oauth2/revoke'',
          userInfoEndpoint = ''https://'' @ domain @ ''/services/oauth2/userinfo'',
          preferEphemeralSession =
            (case perferEphemeralSession cfg of Some b \<Rightarrow> b | None \<Rightarrow> True)\<rparr>)"

text \<open>The spread \<^verbatim>\<open>...(clientSecret && {client_secret: clientSecret})\<close>.\<close>

definition client_secret_param :: "SalesforceConfig \<Rightarrow> URLSearchParams" where
  "client_secret_param cfg =
     (if truthy (clientSecret cfg) then [(''client_secret'', the (clientSecret cfg))] else [])"

definition token_request :: "SalesforceAuthClient \<Rightarrow> string \<Rightarrow> string \<Rightarrow> string \<Rightarrow> request" where
  "token_request c code codeVerifier redirect =
     \<lparr>url = tokenEndpoint c, method = ''POST'',
      headers = [(''Content-Type'', ''application/x-www-form-urlencoded'')],
      body = [(''client_id'', clientId (config c)),
              (''grant_type'', ''authorization_code''),
              (''code'', code),
              (''code_verifier'', codeVerifier),
              (''redirect_uri'', redirect)] @ client_secret_param (config c)\<rparr>"

definition exchangeCodeForToken ::
    "platform \<Rightarrow> (request \<Rightarrow> TokenData fetch_result) \<Rightarrow> SalesforceAuthClient \<Rightarrow>
     string \<Rightarrow> string \<Rightarrow> string \<Rightarrow> world \<Rightarrow> (thrown + unit) \<times> world" where
  "exchangeCodeForToken p fetch c code codeVerifier redirect w =
     (let req = token_request c code codeVerifier redirect;
          w1 = w\<lparr>network := network w @ [req]\<rparr>
      in case fetch req of
           Rejected \<Rightarrow> (Inl TypeError, w1)
         | Response ok data \<Rightarrow>
             if \<not> ok then (Inl (SalesforceAuthError token_exchange_failed), w1)
             else (let w2 = setItem p (storage c) ''accessToken'' (access_token data) w1;
                       w3 = (if truthy (refresh_token data)
                             then setItem p (storage c) ''refreshToken''
                                    (the (refresh_token data)) w2
                             else w2)
                   in (Inr (), w3)))"

definition authorize_params :: "SalesforceAuthClient \<Rightarrow> string \<Rightarrow> string \<Rightarrow> string \<Rightarrow> URLSearchParams" where
  "authorize_params c redirect state codeChallenge =
     [(''client_id'', clientId (config c)),
      (''response_type'', ''code''),
      (''redirect_uri'', redirect),
      (''state'', state),
      (''code_challenge'', codeChallenge),
      (''code_challenge_method'', ''S256'')]"

text \<open>
  \<open>signIn\<close>.  The browser is the function \<open>openAuthSessionAsync\<close> of the authorization
  URL (the endpoint and its query), the redirect URI and the ephemeral-session hint.
\<close>

definition signIn ::
    "platform \<Rightarrow> (string \<times> URLSearchParams \<Rightarrow> string \<Rightarrow> bool \<Rightarrow> WebBrowserAuthSessionResult) \<Rightarrow>
     (request \<Rightarrow> TokenData fetch_result) \<Rightarrow> SalesforceAuthClient \<Rightarrow> world \<Rightarrow>
     (thrown + unit) \<times> world" where
  "signIn p openAuthSessionAsync fetch c w =
     (let (codeVerifier, w1) = generateRandomString p defaultLength w;
          codeChallenge = generateCodeChallenge codeVerifier;
          (state, w2) = generateRandomString p 16 w1;
          redirect = (case redirectUri (config c) of Some r \<Rightarrow> r | None \<Rightarrow> makeRedirectUri p);
          params = authorize_params c redirect state codeChallenge;
          authSessionResult =
            openAuthSessionAsync (authEndpoint c, params) redirect (preferEphemeralSession c)
      in case authSessionResult of
           success response \<Rightarrow>
             (case response of
                Malformed \<Rightarrow> (Inl TypeError, w2)
              | Redirect searchParams \<Rightarrow>
                  (let code = searchParams_get searchParams ''code'';
                       returnedState = searchParams_get searchParams ''state''
                   in if \<not> truthy code \<or> returnedState \<noteq> Some state
                      then (Inl (SalesforceAuthError invalid_state), w2)
                      else exchangeCodeForToken p fetch c (the code) codeVerifier redirect w2))
         | _ \<Rightarrow> (Inl (SalesforceAuthError auth_session_failed), w2))"

definition revoke_request :: "SalesforceAuthClient \<Rightarrow> string \<Rightarrow> request" where
  "revoke_request c token =
     \<lparr>url = revocationEndpoint c, method = ''POST'',
      headers = [(''Content-Type'', ''application/x-www-form-urlencoded'')],
      body = [(''token'', token), (''client_id'', clientId (config c))]
             @ client_secret_param (config c)\<rparr>"

definition signOut ::
    "platform \<Rightarrow> (request \<Rightarrow> 'a fetch_result) \<Rightarrow> SalesforceAuthClient \<Rightarrow> world \<Rightarrow>
     (thrown + unit) \<times> world" where
  "signOut p fetch c w =
     (case getItem p (storage c) ''accessToken'' w of
        Inl e \<Rightarrow> (Inl e, w)
      | Inr token \<Rightarrow>
          if truthy token
          then (let req = revoke_request c (the token);
                    w1 = w\<lparr>network := network w @ [req]\<rparr>
                in case fetch req of
                     Rejected \<Rightarrow> (Inl TypeError, w1)
                   | Response ok data \<Rightarrow>
                       (let w2 = removeItem (storage c) ''accessToken'' w1;
                            w3 = removeItem (storage c) ''refreshToken'' w2
                        in (Inr (), w3)))
          else (Inr (), w))"

definition userinfo_request :: "SalesforceAuthClient \<Rightarrow> string \<Rightarrow> request" where
  "userinfo_request c token =
     \<lparr>url = userInfoEndpoint c, method = ''GET'',
      headers = [(''Authorization'', ''Bearer '' @ token)], body = []\<rparr>"

definition getUserInfo ::
    "platform \<Rightarrow> (request \<Rightarrow> UserInfo fetch_result) \<Rightarrow> SalesforceAuthClient \<Rightarrow> world \<Rightarrow>
     (thrown + UserInfo) \<times> world" where
  "getUserInfo p fetch c w =
     (case getItem p (storage c) ''accessToken'' w of
        Inl e \<Rightarrow> (Inl e, w)
      | Inr token \<Rightarrow>
          if \<not> truthy token then (Inl (SalesforceAuthError not_authenticated), w)
          else (let req = userinfo_request c (the token);
                    w1 = w\<lparr>network := network w @ [req]\<rparr>
                in case fetch req of
                     Rejected \<Rightarrow> (Inl TypeError, w1)
                   | Response ok data \<Rightarrow>
                       if \<not> ok then (Inl (SalesforceAuthError userinfo_request_failed), w1)
                       else (Inr data, w1)))"

definition isAuthenticated ::
    "platform \<Rightarrow> SalesforceAuthClient \<Rightarrow> world \<Rightarrow> (thrown + bool) \<times> world" where
  "isAuthenticated p c w =
     (case getItem p (storage c) ''accessToken'' w of
        Inl e \<Rightarrow> (Inl e, w)
      | Inr token \<Rightarrow> (Inr (truthy token), w))"

text \<open>
  Names for what \<open>signIn\<close> computes before it looks at the redirect: the code verifier
  (first draw), the state nonce (second draw), the world after the two draws, the
  effective redirect URI and the result of the browser session.
\<close>

definition signIn_verifier :: "platform \<Rightarrow> world \<Rightarrow> string" where
  "signIn_verifier p w = fst (generateRandomString p defaultLength w)"

definition signIn_state :: "platform \<Rightarrow> world \<Rightarrow> string" where
  "signIn_state p w = fst (generateRandomString p 16 (snd (generateRandomString p defaultLength w)))"

definition signIn_world :: "platform \<Rightarrow> world \<Rightarrow> world" where
  "signIn_world p w = snd (generateRandomString p 16 (snd (generateRandomString p defaultLength w)))"

definition signIn_redirect :: "platform \<Rightarrow> SalesforceAuthClient \<Rightarrow> string" where
  "signIn_redirect p c =
     (case redirectUri (config c) of Some r \<Rightarrow> r | None \<Rightarrow> makeRedirectUri p)"

definition signIn_session ::
    "platform \<Rightarrow> (string \<times> URLSearchParams \<Rightarrow> string \<Rightarrow> bool \<Rightarrow> WebBrowserAuthSessionResult) \<Rightarrow>
     SalesforceAuthClient \<Rightarrow> world \<Rightarrow> WebBrowserAuthSessionResult" where
  "signIn_session p openAuthSessionAsync c w =
     openAuthSessionAsync
       (authEndpoint c,
        authorize_params c (signIn_redirect p c) (signIn_state p w)
          (generateCodeChallenge (signIn_verifier p w)))
       (signIn_redirect p c) (preferEphemeralSession c)"

text \<open>
  The worlds a client can bring about: it starts on empty media and any of its four
  public operations may run, against any browser and any server.
\<close>

inductive reachable :: "platform \<Rightarrow> SalesforceAuthClient \<Rightarrow> world \<Rightarrow> bool"
  for p :: platform and c :: SalesforceAuthClient where
  start: "reachable p c empty_world"
| after_signIn: "reachable p c w \<Longrightarrow> reachable p c (snd (signIn p browser fetch c w))"
| after_signOut:
    "reachable p c w \<Longrightarrow> reachable p c (snd (signOut p (fetch :: request \<Rightarrow> unit fetch_result) c w))"
| after_getUserInfo: "reachable p c w \<Longrightarrow> reachable p c (snd (getUserInfo p fetch c w))"
| after_isAuthenticated: "reachable p c w \<Longrightarrow> reachable p c (snd (isAuthenticated p c w))"

text \<open>
  The record a store keeps under a key, as it lies on the media: for the encrypted store
  the ciphertext and the encryption key, for the browser store the value (in the session
  medium for the sign-in session, in the persistent one otherwise).
\<close>

fun entry :: "Storage \<Rightarrow> string \<Rightarrow> world \<Rightarrow> string option \<times> string option" where
  "entry (SecureStorage ident) key w =
     (AsyncStorage w (getStorageKey ident key), SecureStore w (getStorageKey ident key))"
| "entry (BrowserStorage appId) key w =
     (if key = ''signInSession'' then (sessionStorage w (getKey appId (Some key)), None)
      else (localStorage w (getKey appId (Some key)), None))"

text \<open>
  The browser store reads the sign-in session from a legacy key as well; no call of the
  store writes under that key.
\<close>

definition no_legacy :: "Storage \<Rightarrow> world \<Rightarrow> bool" where
  "no_legacy st w =
     (case st of
        SecureStorage ident \<Rightarrow> True
      | BrowserStorage appId \<Rightarrow> sessionStorage w (getKey appId None) = None)"

subsection \<open>Concrete scenarios\<close>

text \<open>
  A platform on which the assumptions \<open>platform_ok\<close> hold, with a stand-in cipher that
  writes the key before the value, and the configuration of the spec's scenarios: client \<^verbatim>\<open>C1\<close>,
  redirect URI \<^verbatim>\<open>app://cb\<close>, production host.
\<close>

definition demo_random :: "nat \<Rightarrow> nat \<Rightarrow> string" where
  "demo_random i n =
     (if n = 16 then ''0123456789abcdef'' else ''dBjftJeZ4CVP-mB92K27uhbUJU1p1r_wW1gFWFOEjXk'')"

definition demo_encrypt :: "nat \<Rightarrow> string \<Rightarrow> string \<Rightarrow> string" where
  "demo_encrypt i v k = k @ ''#'' @ v"

definition demo_decrypt :: "string \<Rightarrow> string \<Rightarrow> string option" where
  "demo_decrypt ct k =
     (if take (length k) ct = k then Some (drop (Suc (length k)) ct) else None)"

definition native_platform :: platform where
  "native_platform = \<lparr>OS = ''ios'', makeRedirectUri = ''myapp://'',
     randomString = demo_random, AES_encrypt = demo_encrypt, AES_decrypt = demo_decrypt\<rparr>"

definition web_platform :: platform where
  "web_platform = \<lparr>OS = ''web'', makeRedirectUri = ''myapp://'',
     randomString = demo_random, AES_encrypt = demo_encrypt, AES_decrypt = demo_decrypt\<rparr>"

definition demo_config :: SalesforceConfig where
  "demo_config = \<lparr>clientId = ''C1'', clientSecret = None, redirectUri = Some ''app://cb'',
     sandbox = Some False, perferEphemeralSession = None\<rparr>"

definition native_client :: SalesforceAuthClient where
  "native_client = new_SalesforceAuthClient native_platform demo_config"

definition web_client :: SalesforceAuthClient where
  "web_client = new_SalesforceAuthClient web_platform demo_config"

text \<open>Browsers: one that returns the code with the state it was given, and three others.\<close>

definition browser_honest ::
    "string \<times> URLSearchParams \<Rightarrow> string \<Rightarrow> bool \<Rightarrow> WebBrowserAuthSessionResult" where
  "browser_honest u r e =
     success (Redirect [(''code'', ''ABC123''), (''state'', the (searchParams_get (snd u) ''state''))])"

definition browser_tampered ::
    "string \<times> URLSearchParams \<Rightarrow> string \<Rightarrow> bool \<Rightarrow> WebBrowserAuthSessionResult" where
  "browser_tampered u r e = success (Redirect [(''code'', ''ABC123''), (''state'', ''WRONG'')])"

definition browser_empty_code ::
    "string \<times> URLSearchParams \<Rightarrow> string \<Rightarrow> bool \<Rightarrow> WebBrowserAuthSessionResult" where
  "browser_empty_code u r e =
     success (Redirect [(''code'', []), (''state'', the (searchParams_get (snd u) ''state''))])"

definition browser_cancelled ::
    "string \<times> URLSearchParams \<Rightarrow> string \<Rightarrow> bool \<Rightarrow> WebBrowserAuthSessionResult" where
  "browser_cancelled u r e = cancel"

text \<open>Token endpoints.\<close>

definition issuer_both :: "request \<Rightarrow> TokenData fetch_result" where
  "issuer_both req = Response True \<lparr>access_token = ''AT1'', refresh_token = Some ''RT1''\<rparr>"

definition issuer_access_only :: "request \<Rightarrow> TokenData fetch_result" where
  "issuer_access_only req = Response True \<lparr>access_token = ''AT2'', refresh_token = None\<rparr>"

definition issuer_empty_refresh :: "request \<Rightarrow> TokenData fetch_result" where
  "issuer_empty_refresh req = Response True \<lparr>access_token = ''AT1'', refresh_token = Some []\<rparr>"

definition issuer_empty_access :: "request \<Rightarrow> TokenData fetch_result" where
  "issuer_empty_access req = Response True \<lparr>access_token = [], refresh_token = None\<rparr>"

definition issuer_denies :: "request \<Rightarrow> TokenData fetch_result" where
  "issuer_denies req = Response False \<lparr>access_token = [], refresh_token = None\<rparr>"

text \<open>Revocation endpoints: one that answers, one that cannot be reached.\<close>

definition revocation_answers :: "request \<Rightarrow> unit fetch_result" where
  "revocation_answers req = Response True ()"

definition revocation_unreachable :: "request \<Rightarrow> unit fetch_result" where
  "revocation_unreachable req = Rejected"

text \<open>Userinfo endpoints.\<close>

definition demo_user :: UserInfo where
  "demo_user = \<lparr>name = ''Ada'', email = ''ada@example.org'', picture = ''https://example.org/a.png'',
     preferred_username = ''ada'', profile = ''https://example.org/ada''\<rparr>"

definition userinfo_answers :: "request \<Rightarrow> UserInfo fetch_result" where
  "userinfo_answers req = Response True demo_user"

definition userinfo_denies :: "request \<Rightarrow> UserInfo fetch_result" where
  "userinfo_denies req = Response False demo_user"

text \<open>Worlds: after the happy path, and after a sign-in whose access token is empty.\<close>

definition signed_in_world :: world where
  "signed_in_world = snd (signIn web_platform browser_honest issuer_both web_client empty_world)"

definition empty_token_world :: world where
  "empty_token_world =
     snd (signIn web_platform browser_honest issuer_empty_access web_client empty_world)"

text \<open>
  The encrypted store after one write, and the same world once only the key in the
  secure element has been deleted.
\<close>

definition written_world :: world where
  "written_world = setItem native_platform (SecureStorage ''salesforce.C1'') ''accessToken'' ''AT1''
     empty_world"

definition key_lost_world :: world where
  "key_lost_world = written_world\<lparr>SecureStore :=
     (SecureStore written_world)(getStorageKey ''salesforce.C1'' ''accessToken'' := None)\<rparr>"

text \<open>
  A browser whose session medium still holds a sign-in session under the legacy key
  \<^verbatim>\<open>salesforce_auth:C1\<close>, the key that \<open>getItem\<close> falls back to for backward
  compatibility, and nothing else.
\<close>

definition legacy_world :: world where
  "legacy_world = empty_world\<lparr>sessionStorage := [getKey ''C1'' None \<mapsto> ''OLD'']\<rparr>"

section \<open>Properties\<close>

subsection \<open>Keys and truthiness\<close>

lemma getStorageKey_inj: "getStorageKey i k = getStorageKey i k' \<longleftrightarrow> k = k'"
  by (simp add: getStorageKey_def)

lemma getKey_inj: "getKey a (Some k) = getKey a (Some k') \<longleftrightarrow> k = k'"
  by (simp add: getKey_def)

lemma getKey_legacy: "getKey a (Some k) \<noteq> getKey a None"
  by (simp add: getKey_def)

lemma truthy_Some: "truthy (Some s) \<longleftrightarrow> s \<noteq> []"
  by (simp add: truthy_def)

lemma truthy_None: "\<not> truthy None"
  by (simp add: truthy_def)

lemma truthy_iff: "truthy x \<longleftrightarrow> x \<noteq> None \<and> x \<noteq> Some []"
  by (cases x) (simp_all add: truthy_def)

subsection \<open>One call on a store\<close>

lemma get_set_same:
  assumes "platform_ok p"
  shows "getItem p st k (setItem p st k v w) = Inr (Some v)"
proof (cases st)
  case (SecureStorage i)
  then show ?thesis
    using assms
    by (simp add: SecureStorage_getItem_def SecureStorage_setItem_def encrypt_def decrypt_def
        generateRandomString_def platform_ok_def truthy_def)
next
  case (BrowserStorage a)
  then show ?thesis
    by (simp add: BrowserStorage_getItem_def BrowserStorage_setItem_def)
qed

lemma get_set_other:
  assumes "k \<noteq> k'"
  shows "getItem p st k (setItem p st k' v w) = getItem p st k w"
proof (cases st)
  case (SecureStorage i)
  then show ?thesis
    using assms
    by (simp add: SecureStorage_getItem_def SecureStorage_setItem_def encrypt_def decrypt_def
        generateRandomString_def getStorageKey_inj Let_def)
next
  case (BrowserStorage a)
  then show ?thesis
    using assms
    by (auto simp add: BrowserStorage_getItem_def BrowserStorage_setItem_def getKey_inj
        getKey_legacy split: option.splits)
qed

lemma get_remove_same:
  assumes "k \<noteq> ''signInSession'' \<or> no_legacy st w"
  shows "getItem p st k (removeItem st k w) = Inr None"
proof (cases st)
  case (SecureStorage i)
  then show ?thesis
    by (simp add: SecureStorage_getItem_def SecureStorage_removeItem_def truthy_def)
next
  case (BrowserStorage a)
  then show ?thesis
    using assms
    by (auto simp add: BrowserStorage_getItem_def BrowserStorage_removeItem_def no_legacy_def
        getKey_legacy split: option.splits)
qed

lemma get_remove_other:
  assumes "k \<noteq> k'"
  shows "getItem p st k (removeItem st k' w) = getItem p st k w"
proof (cases st)
  case (SecureStorage i)
  then show ?thesis
    using assms
    by (simp add: SecureStorage_getItem_def SecureStorage_removeItem_def decrypt_def
        getStorageKey_inj Let_def)
next
  case (BrowserStorage a)
  then show ?thesis
    using assms
    by (auto simp add: BrowserStorage_getItem_def BrowserStorage_removeItem_def getKey_inj
        getKey_legacy split: option.splits)
qed

lemma remove_idem: "removeItem st k (removeItem st k w) = removeItem st k w"
  by (cases st) (simp_all add: SecureStorage_removeItem_def BrowserStorage_removeItem_def)

lemma getItem_stores:
  assumes "stores w = stores w'"
  shows "getItem p st k w = getItem p st k w'"
  using assms
  by (cases st)
    (simp_all add: stores_def SecureStorage_getItem_def decrypt_def BrowserStorage_getItem_def
      Let_def split: option.splits)

lemma entry_stores:
  assumes "stores w = stores w'"
  shows "entry st k w = entry st k w'"
  using assms by (cases st) (simp_all add: stores_def)

lemma entry_set_other:
  assumes "k \<noteq> k'"
  shows "entry st k (setItem p st k' v w) = entry st k w"
  using assms
  by (cases st)
    (auto simp add: SecureStorage_setItem_def encrypt_def generateRandomString_def
      BrowserStorage_setItem_def getStorageKey_inj getKey_inj Let_def)

lemma getItem_empty: "getItem p st k empty_world = Inr None"
  by (cases st)
    (simp_all add: empty_world_def SecureStorage_getItem_def BrowserStorage_getItem_def truthy_def)

lemma no_legacy_set: "no_legacy st w \<Longrightarrow> no_legacy st (setItem p st k v w)"
  by (cases st)
    (auto simp add: no_legacy_def BrowserStorage_setItem_def getKey_legacy
      dest: getKey_legacy [THEN notE, OF sym])

lemma no_legacy_remove: "no_legacy st w \<Longrightarrow> no_legacy st (removeItem st k w)"
  by (cases st) (auto simp add: no_legacy_def BrowserStorage_removeItem_def)

subsection \<open>Sequences of calls: the store refines a dictionary\<close>

lemma calls_snoc: "calls p st (cs @ [c]) w = call p st (calls p st cs w) c"
  by (simp add: calls_def)

lemma no_legacy_calls: "no_legacy st (calls p st cs empty_world)"
proof (induction cs rule: rev_induct)
  case Nil
  show ?case
    by (cases st) (simp_all add: calls_def no_legacy_def empty_world_def)
next
  case (snoc c cs)
  then show ?case
    by (cases c) (simp_all add: calls_snoc no_legacy_set no_legacy_remove)
qed

lemma dictionary_snoc: "dictionary (cs @ [c]) = dictionary_call (dictionary cs) c"
  by (simp add: dictionary_def)

lemma dictionary_unwritten: "\<forall>v. SetItem k v \<notin> set cs \<Longrightarrow> dictionary cs k = None"
proof (induction cs rule: rev_induct)
  case Nil
  show ?case by (simp add: dictionary_def)
next
  case (snoc c cs)
  then show ?case
    by (cases c) (auto simp add: dictionary_snoc)
qed

lemma store_refines_dictionary:
  assumes "platform_ok p"
  shows "getItem p st k (calls p st cs empty_world) = Inr (dictionary cs k)"
proof (induction cs rule: rev_induct)
  case Nil
  show ?case by (simp add: calls_def dictionary_def getItem_empty)
next
  case (snoc c cs)
  show ?case
  proof (cases c)
    case (SetItem k' v)
    show ?thesis
    proof (cases "k = k'")
      case True
      with SetItem assms show ?thesis
        by (simp add: calls_snoc dictionary_snoc get_set_same)
    next
      case False
      with SetItem snoc show ?thesis
        by (simp add: calls_snoc dictionary_snoc get_set_other)
    qed
  next
    case (RemoveItem k')
    show ?thesis
    proof (cases "k = k'")
      case True
      with RemoveItem show ?thesis
        by (simp add: calls_snoc dictionary_snoc get_remove_same no_legacy_calls)
    next
      case False
      with RemoveItem snoc show ?thesis
        by (simp add: calls_snoc dictionary_snoc get_remove_other)
    qed
  qed
qed

subsection \<open>The scenario platforms meet the assumptions\<close>

lemma native_platform_ok: "platform_ok native_platform"
  by (simp add: platform_ok_def native_platform_def demo_encrypt_def demo_decrypt_def
      demo_random_def defaultLength_def)

lemma web_platform_ok: "platform_ok web_platform"
  by (simp add: platform_ok_def web_platform_def demo_encrypt_def demo_decrypt_def
      demo_random_def defaultLength_def)

subsection \<open>The token exchange\<close>

lemma stores_network: "stores (w\<lparr>network := n\<rparr>) = stores w"
  by (simp add: stores_def)

lemma stores_draws: "stores (w\<lparr>draws := n\<rparr>) = stores w"
  by (simp add: stores_def)

lemma network_setItem: "network (setItem p st k v w) = network w"
  by (cases st)
    (simp_all add: SecureStorage_setItem_def encrypt_def generateRandomString_def
      BrowserStorage_setItem_def Let_def)

lemma network_removeItem: "network (removeItem st k w) = network w"
  by (cases st)
    (simp_all add: SecureStorage_removeItem_def BrowserStorage_removeItem_def Let_def)

lemma exchange_not_ok:
  assumes "fetch (token_request c code v r) = Response False d"
  shows "exchangeCodeForToken p fetch c code v r w =
     (Inl (SalesforceAuthError token_exchange_failed),
      w\<lparr>network := network w @ [token_request c code v r]\<rparr>)"
  using assms by (simp add: exchangeCodeForToken_def)

lemma exchange_rejected:
  assumes "fetch (token_request c code v r) = Rejected"
  shows "exchangeCodeForToken p fetch c code v r w =
     (Inl TypeError, w\<lparr>network := network w @ [token_request c code v r]\<rparr>)"
  using assms by (simp add: exchangeCodeForToken_def)

lemma exchange_ok:
  assumes "fetch (token_request c code v r) = Response True d"
  shows "exchangeCodeForToken p fetch c code v r w =
     (Inr (),
      (if truthy (refresh_token d)
       then setItem p (storage c) ''refreshToken'' (the (refresh_token d))
              (setItem p (storage c) ''accessToken'' (access_token d)
                 (w\<lparr>network := network w @ [token_request c code v r]\<rparr>))
       else setItem p (storage c) ''accessToken'' (access_token d)
              (w\<lparr>network := network w @ [token_request c code v r]\<rparr>)))"
  using assms by (simp add: exchangeCodeForToken_def Let_def)

lemma exchange_failure_stores:
  assumes "exchangeCodeForToken p fetch c code v r w = (Inl e, w')"
  shows "stores w' = stores w"
  using assms
  by (auto simp add: exchangeCodeForToken_def Let_def stores_network
      split: fetch_result.splits if_splits)

subsection \<open>Sign-in\<close>

lemma signIn_eq:
  "signIn p browser fetch c w =
     (case signIn_session p browser c w of
        success response \<Rightarrow>
          (case response of
             Malformed \<Rightarrow> (Inl TypeError, signIn_world p w)
           | Redirect sp \<Rightarrow>
               if \<not> truthy (searchParams_get sp ''code'') \<or>
                  searchParams_get sp ''state'' \<noteq> Some (signIn_state p w)
               then (Inl (SalesforceAuthError invalid_state), signIn_world p w)
               else exchangeCodeForToken p fetch c (the (searchParams_get sp ''code''))
                      (signIn_verifier p w) (signIn_redirect p c) (signIn_world p w))
      | _ \<Rightarrow> (Inl (SalesforceAuthError auth_session_failed), signIn_world p w))"
  unfolding signIn_def signIn_session_def signIn_world_def signIn_state_def
      signIn_verifier_def signIn_redirect_def generateRandomString_def Let_def
  by (simp split: WebBrowserAuthSessionResult.splits RedirectURL.splits)

lemma stores_signIn_world: "stores (signIn_world p w) = stores w"
  by (simp add: signIn_world_def generateRandomString_def stores_def)

lemma network_signIn_world: "network (signIn_world p w) = network w"
  by (simp add: signIn_world_def generateRandomString_def)

lemma signIn_outcome:
  "signIn p browser fetch c w = (Inl TypeError, signIn_world p w) \<or>
   signIn p browser fetch c w = (Inl (SalesforceAuthError invalid_state), signIn_world p w) \<or>
   signIn p browser fetch c w = (Inl (SalesforceAuthError auth_session_failed), signIn_world p w) \<or>
   (\<exists>code. signIn p browser fetch c w =
      exchangeCodeForToken p fetch c code (signIn_verifier p w) (signIn_redirect p c)
        (signIn_world p w))"
proof (cases "signIn_session p browser c w")
  case (success response)
  then show ?thesis
    by (cases response) (auto simp add: signIn_eq)
qed (simp_all add: signIn_eq)

lemma exchange_outcome:
  "exchangeCodeForToken p fetch c code v r w =
     (Inl TypeError, w\<lparr>network := network w @ [token_request c code v r]\<rparr>) \<or>
   exchangeCodeForToken p fetch c code v r w =
     (Inl (SalesforceAuthError token_exchange_failed),
      w\<lparr>network := network w @ [token_request c code v r]\<rparr>) \<or>
   (\<exists>d :: TokenData. exchangeCodeForToken p fetch c code v r w =
     (Inr (),
      (if truthy (refresh_token d)
       then setItem p (storage c) ''refreshToken'' (the (refresh_token d))
              (setItem p (storage c) ''accessToken'' (access_token d)
                 (w\<lparr>network := network w @ [token_request c code v r]\<rparr>))
       else setItem p (storage c) ''accessToken'' (access_token d)
              (w\<lparr>network := network w @ [token_request c code v r]\<rparr>))))"
proof (cases "fetch (token_request c code v r)")
  case Rejected
  then show ?thesis
    by (simp add: exchange_rejected)
next
  case (Response ok d)
  show ?thesis
  proof (cases ok)
    case True
    with Response have "fetch (token_request c code v r) = Response True d"
      by simp
    from exchange_ok [where fetch = fetch and p = p and w = w, OF this] show ?thesis
      by (intro disjI2 exI)
  next
    case False
    with Response have "fetch (token_request c code v r) = Response False d"
      by simp
    from exchange_not_ok [where fetch = fetch and p = p and w = w, OF this] show ?thesis
      by simp
  qed
qed

lemma exchange_never_invalid_state:
  "fst (exchangeCodeForToken p fetch c code v r w) \<noteq> Inl (SalesforceAuthError invalid_state)"
  using exchange_outcome [of p fetch c code v r w]
  by (elim disjE exE) simp_all

lemma exchange_error_kinds:
  assumes "exchangeCodeForToken p fetch c code v r w = (Inl e, w')"
  shows "e = SalesforceAuthError token_exchange_failed \<or> e = TypeError"
  using exchange_outcome [of p fetch c code v r w] assms
  by (elim disjE exE) simp_all

lemma signIn_failure:
  assumes "signIn p browser fetch c w = (Inl e, w')"
  shows "stores w' = stores w \<and>
     e \<in> {SalesforceAuthError auth_session_failed, SalesforceAuthError invalid_state,
           SalesforceAuthError token_exchange_failed, TypeError}"
proof -
  have "signIn p browser fetch c w = (Inl TypeError, signIn_world p w) \<or>
   signIn p browser fetch c w = (Inl (SalesforceAuthError invalid_state), signIn_world p w) \<or>
   signIn p browser fetch c w = (Inl (SalesforceAuthError auth_session_failed), signIn_world p w) \<or>
   (\<exists>code. signIn p browser fetch c w =
      exchangeCodeForToken p fetch c code (signIn_verifier p w) (signIn_redirect p c)
        (signIn_world p w))"
    by (rule signIn_outcome)
  then show ?thesis
  proof (elim disjE exE)
    fix code
    assume "signIn p browser fetch c w =
      exchangeCodeForToken p fetch c code (signIn_verifier p w) (signIn_redirect p c)
        (signIn_world p w)"
    with assms have x: "exchangeCodeForToken p fetch c code (signIn_verifier p w)
        (signIn_redirect p c) (signIn_world p w) = (Inl e, w')"
      by simp
    from exchange_failure_stores [OF x] exchange_error_kinds [OF x] show ?thesis
      by (auto simp add: stores_signIn_world)
  qed (use assms in \<open>simp_all add: stores_signIn_world\<close>)
qed

lemma isAuthenticated_stores:
  assumes "stores w' = stores w"
  shows "fst (isAuthenticated p c w') = fst (isAuthenticated p c w)"
  using getItem_stores [OF assms, of p "storage c" "''accessToken''"]
  by (simp add: isAuthenticated_def split: sum.splits)

lemma isAuthenticated_empty:
  assumes "stores w = stores empty_world"
  shows "isAuthenticated p c w = (Inr False, w)"
  using getItem_stores [OF assms, of p "storage c" "''accessToken''"]
  by (simp add: isAuthenticated_def getItem_empty truthy_None)

subsection \<open>The scenarios, evaluated\<close>

lemmas scenario_defs =
  web_client_def native_client_def new_SalesforceAuthClient_def web_platform_def
  native_platform_def demo_config_def demo_random_def demo_encrypt_def demo_decrypt_def
  defaultLength_def

lemma web_storage: "storage web_client = BrowserStorage ''C1''"
  by (simp add: scenario_defs)

lemma native_storage: "storage native_client = SecureStorage ''salesforce.C1''"
  by (simp add: scenario_defs)

lemma web_state: "signIn_state web_platform w = ''0123456789abcdef''"
  by (simp add: signIn_state_def generateRandomString_def scenario_defs)

lemma web_redirect: "signIn_redirect web_platform web_client = ''app://cb''"
  by (simp add: signIn_redirect_def scenario_defs)

lemma session_honest:
  "signIn_session web_platform browser_honest web_client w =
     success (Redirect [(''code'', ''ABC123''), (''state'', ''0123456789abcdef'')])"
  by (simp add: signIn_session_def browser_honest_def authorize_params_def searchParams_get_def
      web_state)

lemma session_tampered:
  "signIn_session web_platform browser_tampered web_client w =
     success (Redirect [(''code'', ''ABC123''), (''state'', ''WRONG'')])"
  by (simp add: signIn_session_def browser_tampered_def)

lemma session_empty_code:
  "signIn_session web_platform browser_empty_code web_client w =
     success (Redirect [(''code'', []), (''state'', ''0123456789abcdef'')])"
  by (simp add: signIn_session_def browser_empty_code_def authorize_params_def
      searchParams_get_def web_state)

subsection \<open>What the operations do to the world\<close>

lemma entry_remove_same:
  assumes "k \<noteq> ''signInSession''"
  shows "entry st k (removeItem st k w) = (None, None)"
  using assms
  by (cases st)
    (simp_all add: SecureStorage_removeItem_def BrowserStorage_removeItem_def Let_def)

lemma entry_remove_other:
  assumes "k \<noteq> k'"
  shows "entry st k (removeItem st k' w) = entry st k w"
  using assms
  by (cases st)
    (auto simp add: SecureStorage_removeItem_def BrowserStorage_removeItem_def Let_def
      getStorageKey_inj getKey_inj)

lemma signIn_stores:
  "stores (snd (signIn p browser fetch c w)) = stores w \<or>
   (\<exists>(d :: TokenData) w1. stores w1 = stores w \<and>
      snd (signIn p browser fetch c w) =
        (if truthy (refresh_token d)
         then setItem p (storage c) ''refreshToken'' (the (refresh_token d))
                (setItem p (storage c) ''accessToken'' (access_token d) w1)
         else setItem p (storage c) ''accessToken'' (access_token d) w1))"
proof -
  have "signIn p browser fetch c w = (Inl TypeError, signIn_world p w) \<or>
   signIn p browser fetch c w = (Inl (SalesforceAuthError invalid_state), signIn_world p w) \<or>
   signIn p browser fetch c w = (Inl (SalesforceAuthError auth_session_failed), signIn_world p w) \<or>
   (\<exists>code. signIn p browser fetch c w =
      exchangeCodeForToken p fetch c code (signIn_verifier p w) (signIn_redirect p c)
        (signIn_world p w))"
    by (rule signIn_outcome)
  then show ?thesis
  proof (elim disjE exE)
    fix code
    assume x: "signIn p browser fetch c w =
      exchangeCodeForToken p fetch c code (signIn_verifier p w) (signIn_redirect p c)
        (signIn_world p w)"
    let ?w1 = "(signIn_world p w)\<lparr>network := network (signIn_world p w) @
        [token_request c code (signIn_verifier p w) (signIn_redirect p c)]\<rparr>"
    have s: "stores ?w1 = stores w"
      by (simp add: stores_network stores_signIn_world)
    from exchange_outcome [of p fetch c code "signIn_verifier p w" "signIn_redirect p c"
        "signIn_world p w"]
    show ?thesis
    proof (elim disjE exE)
      fix d :: TokenData
      assume "exchangeCodeForToken p fetch c code (signIn_verifier p w) (signIn_redirect p c)
          (signIn_world p w) =
        (Inr (),
         if truthy (refresh_token d)
         then setItem p (storage c) ''refreshToken'' (the (refresh_token d))
                (setItem p (storage c) ''accessToken'' (access_token d) ?w1)
         else setItem p (storage c) ''accessToken'' (access_token d) ?w1)"
      with x have "snd (signIn p browser fetch c w) =
         (if truthy (refresh_token d)
          then setItem p (storage c) ''refreshToken'' (the (refresh_token d))
                 (setItem p (storage c) ''accessToken'' (access_token d) ?w1)
          else setItem p (storage c) ''accessToken'' (access_token d) ?w1)"
        by simp
      with s show ?thesis
        by blast
    qed (simp_all add: x s)
  qed (simp_all add: stores_signIn_world)
qed

lemma signOut_outcome:
  "(\<exists>e. getItem p (storage c) ''accessToken'' w = Inl e \<and> signOut p fetch c w = (Inl e, w)) \<or>
   (\<exists>tok. getItem p (storage c) ''accessToken'' w = Inr tok \<and> \<not> truthy tok \<and>
      signOut p fetch c w = (Inr (), w)) \<or>
   (\<exists>t. getItem p (storage c) ''accessToken'' w = Inr (Some t) \<and> t \<noteq> [] \<and>
      fetch (revoke_request c t) = Rejected \<and>
      signOut p fetch c w = (Inl TypeError, w\<lparr>network := network w @ [revoke_request c t]\<rparr>)) \<or>
   (\<exists>t ok d. getItem p (storage c) ''accessToken'' w = Inr (Some t) \<and> t \<noteq> [] \<and>
      fetch (revoke_request c t) = Response ok d \<and>
      signOut p fetch c w =
        (Inr (), removeItem (storage c) ''refreshToken''
                   (removeItem (storage c) ''accessToken''
                      (w\<lparr>network := network w @ [revoke_request c t]\<rparr>))))"
proof (cases "getItem p (storage c) ''accessToken'' w")
  case (Inl e)
  then show ?thesis
    by (simp add: signOut_def)
next
  case (Inr tok)
  show ?thesis
  proof (cases "truthy tok")
    case False
    with Inr show ?thesis
      by (simp add: signOut_def)
  next
    case True
    then obtain t where t: "tok = Some t" "t \<noteq> []"
      by (cases tok) (simp_all add: truthy_def)
    show ?thesis
    proof (cases "fetch (revoke_request c t)")
      case Rejected
      with Inr t show ?thesis
        by (simp add: signOut_def truthy_def Let_def)
    next
      case (Response ok d)
      with Inr t show ?thesis
        by (simp add: signOut_def truthy_def Let_def)
    qed
  qed
qed

lemma signOut_stores:
  "stores (snd (signOut p fetch c w)) = stores w \<or>
   (\<exists>w1. stores w1 = stores w \<and>
      snd (signOut p fetch c w) =
        removeItem (storage c) ''refreshToken'' (removeItem (storage c) ''accessToken'' w1))"
  using signOut_outcome [of p c w fetch]
proof (elim disjE exE conjE)
  fix t ok d
  assume "signOut p fetch c w =
        (Inr (), removeItem (storage c) ''refreshToken''
                   (removeItem (storage c) ''accessToken''
                      (w\<lparr>network := network w @ [revoke_request c t]\<rparr>)))"
  then have "stores (w\<lparr>network := network w @ [revoke_request c t]\<rparr>) = stores w \<and>
      snd (signOut p fetch c w) =
        removeItem (storage c) ''refreshToken'' (removeItem (storage c) ''accessToken''
           (w\<lparr>network := network w @ [revoke_request c t]\<rparr>))"
    by (simp add: stores_network)
  then show ?thesis
    by blast
qed (simp_all add: stores_network)

lemma getUserInfo_stores: "stores (snd (getUserInfo p fetch c w)) = stores w"
  by (simp add: getUserInfo_def Let_def stores_network
      split: sum.splits fetch_result.splits)

lemma isAuthenticated_world: "snd (isAuthenticated p c w) = w"
  by (simp add: isAuthenticated_def split: sum.splits)

subsection \<open>An invariant of the reachable worlds\<close>

text \<open>
  In every world the client can bring about, both tokens can be read without error, and
  there is no refresh token without an access token.
\<close>

lemma reachable_tokens:
  assumes "platform_ok p" and "reachable p c w"
  shows "\<exists>a r. getItem p (storage c) ''accessToken'' w = Inr a \<and>
           getItem p (storage c) ''refreshToken'' w = Inr r \<and> (a = None \<longrightarrow> r = None)"
  using assms(2)
proof induction
  case start
  show ?case by (simp add: getItem_empty)
next
  case (after_signIn w browser fetch)
  from signIn_stores [of p browser fetch c w] show ?case
  proof (elim disjE exE conjE)
    assume "stores (snd (signIn p browser fetch c w)) = stores w"
    from getItem_stores [OF this] after_signIn.IH show ?thesis
      by simp
  next
    fix d :: TokenData and w1
    assume s: "stores w1 = stores w"
      and x: "snd (signIn p browser fetch c w) =
        (if truthy (refresh_token d)
         then setItem p (storage c) ''refreshToken'' (the (refresh_token d))
                (setItem p (storage c) ''accessToken'' (access_token d) w1)
         else setItem p (storage c) ''accessToken'' (access_token d) w1)"
    from after_signIn.IH getItem_stores [OF s] obtain r
      where r: "getItem p (storage c) ''refreshToken'' w1 = Inr r"
      by auto
    from x r assms(1) show ?thesis
      by (simp add: get_set_same get_set_other)
  qed
next
  case (after_signOut w fetch)
  from signOut_stores [of p fetch c w] show ?case
  proof (elim disjE exE conjE)
    assume "stores (snd (signOut p fetch c w)) = stores w"
    from getItem_stores [OF this] after_signOut.IH show ?thesis
      by simp
  next
    fix w1
    assume "snd (signOut p fetch c w) =
        removeItem (storage c) ''refreshToken'' (removeItem (storage c) ''accessToken'' w1)"
    then show ?thesis
      by (simp add: get_remove_same get_remove_other)
  qed
next
  case (after_getUserInfo w fetch)
  from getItem_stores [OF getUserInfo_stores] after_getUserInfo.IH show ?case
    by simp
next
  case (after_isAuthenticated w)
  then show ?case
    by (simp add: isAuthenticated_world)
qed

subsection \<open>The signed-in scenarios, evaluated\<close>

lemma signIn_honest:
  assumes "fetch (token_request web_client ''ABC123'' (signIn_verifier web_platform w)
             ''app://cb'') = Response True d"
  shows "signIn web_platform browser_honest fetch web_client w =
     (Inr (),
      (if truthy (refresh_token d)
       then setItem web_platform (BrowserStorage ''C1'') ''refreshToken'' (the (refresh_token d))
              (setItem web_platform (BrowserStorage ''C1'') ''accessToken'' (access_token d)
                 ((signIn_world web_platform w)\<lparr>network := network w @
                    [token_request web_client ''ABC123'' (signIn_verifier web_platform w)
                       ''app://cb'']\<rparr>))
       else setItem web_platform (BrowserStorage ''C1'') ''accessToken'' (access_token d)
              ((signIn_world web_platform w)\<lparr>network := network w @
                 [token_request web_client ''ABC123'' (signIn_verifier web_platform w)
                    ''app://cb'']\<rparr>)))"
  by (simp add: signIn_eq session_honest searchParams_get_def truthy_Some web_state web_redirect
      exchange_ok [where fetch = fetch, OF assms] web_storage network_signIn_world)

lemma signed_in_world_tokens:
  "getItem web_platform (storage web_client) ''accessToken'' signed_in_world = Inr (Some ''AT1'')"
  "getItem web_platform (storage web_client) ''refreshToken'' signed_in_world = Inr (Some ''RT1'')"
  by (simp_all add: signed_in_world_def signIn_honest [where fetch = issuer_both] issuer_both_def
      truthy_Some web_storage BrowserStorage_getItem_def BrowserStorage_setItem_def getKey_def)

lemma signed_in_world_reachable: "reachable web_platform web_client signed_in_world"
  unfolding signed_in_world_def by (rule reachable.after_signIn [OF reachable.start])

lemma empty_token_world_token:
  "getItem web_platform (storage web_client) ''accessToken'' empty_token_world = Inr (Some [])"
  by (simp add: empty_token_world_def signIn_honest [where fetch = issuer_empty_access]
      issuer_empty_access_def truthy_None web_storage BrowserStorage_getItem_def
      BrowserStorage_setItem_def)

lemma empty_token_world_reachable: "reachable web_platform web_client empty_token_world"
  unfolding empty_token_world_def by (rule reachable.after_signIn [OF reachable.start])

subsection \<open>SHA-256 and base64url\<close>

lemma length_bytes32: "length (bytes32 x) = 4"
  by (simp add: bytes32_def)

lemma bytes32_bound: "b \<in> set (bytes32 x) \<Longrightarrow> b < 256"
  by (auto simp add: bytes32_def)

lemma length_hash_bytes: "length (hash_bytes h) = 32"
  by (induction h rule: hash_bytes.induct) (simp add: length_bytes32)

lemma hash_bytes_bound: "b \<in> set (hash_bytes h) \<Longrightarrow> b < 256"
  by (induction h rule: hash_bytes.induct) (auto dest: bytes32_bound)

lemma length_SHA256: "length (SHA256 m) = 32"
  by (simp add: SHA256_def Let_def length_hash_bytes)

lemma SHA256_bound: "b \<in> set (SHA256 m) \<Longrightarrow> b < 256"
  by (simp add: SHA256_def Let_def hash_bytes_bound)

lemma length_alphabet: "length alphabet = 64"
  by (simp add: alphabet_def)

lemma alphabet_nth: "i < 64 \<Longrightarrow> alphabet ! i \<in> set alphabet"
  by (simp add: length_alphabet)

lemma length_base64url: "length (base64url bs) = (4 * length bs + 2) div 3"
  by (induction bs rule: base64url.induct) (simp_all add: Let_def)

lemma sextet_bound:
  assumes "a < 256" and "b < 256" and "c < 256"
  shows "(a * 65536 + b * 256 + c) div 262144 < (64 :: nat)"
  using assms by simp

lemma base64url_alphabet:
  assumes "\<forall>b \<in> set bs. b < 256"
  shows "set (base64url bs) \<subseteq> set alphabet"
  using assms
proof (induction bs rule: base64url.induct)
  case (1 a b c bs)
  then have "(a * 65536 + b * 256 + c) div 262144 < 64"
    by (simp add: sextet_bound)
  with 1 show ?case
    by (simp add: Let_def alphabet_nth)
next
  case (2 a b)
  then have "(a * 65536 + b * 256 + 0) div 262144 < 64"
    by (intro sextet_bound) simp_all
  then show ?case
    by (simp add: Let_def alphabet_nth)
next
  case (3 a)
  then have "(a * 65536 + 0 * 256 + 0) div 262144 < 64"
    by (intro sextet_bound) simp_all
  then show ?case
    by (simp add: Let_def alphabet_nth)
next
  case 4
  show ?case by simp
qed

lemma alphabet_url_safe:
  "CHR ''='' \<notin> set alphabet" "CHR ''+'' \<notin> set alphabet" "CHR ''/'' \<notin> set alphabet"
  by (simp_all add: alphabet_def)

lemma challenge_shape:
  "length (generateCodeChallenge v) = 43 \<and> set (generateCodeChallenge v) \<subseteq> set alphabet"
proof -
  have "\<forall>b \<in> set (SHA256 (map of_char v)). b < 256"
    by (simp add: SHA256_bound)
  from base64url_alphabet [OF this] show ?thesis
    by (simp add: generateCodeChallenge_def length_base64url length_SHA256)
qed

lemma distinct_alphabet: "distinct alphabet"
  by (simp add: alphabet_def)

lemma sextet_nth:
  assumes "i < 64"
  shows "sextet (alphabet ! i) = i"
proof -
  have "takeWhile (\<lambda>x. x \<noteq> alphabet ! i) alphabet = take i alphabet"
  proof (rule takeWhile_eq_take_P_nth)
    fix j
    assume "j < i" and "j < length alphabet"
    with assms show "alphabet ! j \<noteq> alphabet ! i"
      by (simp add: nth_eq_iff_index_eq [OF distinct_alphabet] length_alphabet)
  next
    show "\<not> alphabet ! i \<noteq> alphabet ! i"
      by simp
  qed
  with assms show ?thesis
    by (simp add: sextet_def length_alphabet)
qed

lemma sextets_24:
  "((n div 262144 * 64 + n div 4096 mod 64) * 64 + n div 64 mod 64) * 64 + n mod 64 = (n :: nat)"
proof -
  have a: "n div 4096 = n div 64 div 64" and b: "n div 262144 = n div 64 div 64 div 64"
    by (simp_all add: div_mult2_eq)
  have "(n div 64 div 64 div 64 * 64 + n div 64 div 64 mod 64) = n div 64 div 64"
    by (rule div_mult_mod_eq)
  moreover have "n div 64 div 64 * 64 + n div 64 mod 64 = n div 64"
    by (rule div_mult_mod_eq)
  moreover have "n div 64 * 64 + n mod 64 = n"
    by (rule div_mult_mod_eq)
  ultimately show ?thesis
    by (simp add: a b)
qed

lemma triple_bytes:
  assumes "a < 256" and "b < 256" and "c < 256"
  shows "(a * 65536 + b * 256 + c) div 65536 = (a :: nat)"
    and "(a * 65536 + b * 256 + c) div 256 mod 256 = b"
    and "(a * 65536 + b * 256 + c) mod 256 = c"
proof -
  have e: "a * 65536 + b * 256 + c = (a * 256 + b) * 256 + c"
    by simp
  from assms show "(a * 65536 + b * 256 + c) div 65536 = a"
    by simp
  have "((a * 256 + b) * 256 + c) div 256 = (a * 256 + b) + c div 256"
    by (rule div_mult_self3) simp
  moreover from assms have "c div 256 = 0"
    by simp
  moreover have "(a * 256 + b) mod 256 = b mod 256"
    by (rule mod_mult_self3)
  moreover from assms have "b mod 256 = b"
    by simp
  ultimately have d: "((a * 256 + b) * 256 + c) div 256 mod 256 = b"
    by (simp only: add_0_right)
  show "(a * 65536 + b * 256 + c) div 256 mod 256 = b"
    using d by (simp only: e)
  have "((a * 256 + b) * 256 + c) mod 256 = c mod 256"
    by (rule mod_mult_self3)
  moreover from assms have "c mod 256 = c"
    by simp
  ultimately have m: "((a * 256 + b) * 256 + c) mod 256 = c"
    by (simp only:)
  show "(a * 65536 + b * 256 + c) mod 256 = c"
    using m by (simp only: e)
qed

lemma sextet_quad:
  assumes "n < 16777216"
  shows "((sextet (alphabet ! (n div 262144)) * 64 + sextet (alphabet ! (n div 4096 mod 64))) * 64
            + sextet (alphabet ! (n div 64 mod 64))) * 64 + sextet (alphabet ! (n mod 64)) = n"
proof -
  from assms have "n div 262144 < 64"
    by simp
  then have s: "sextet (alphabet ! (n div 262144)) = n div 262144"
    "sextet (alphabet ! (n div 4096 mod 64)) = n div 4096 mod 64"
    "sextet (alphabet ! (n div 64 mod 64)) = n div 64 mod 64"
    "sextet (alphabet ! (n mod 64)) = n mod 64"
    by (simp_all add: sextet_nth)
  show ?thesis
    unfolding s by (rule sextets_24)
qed

lemma base64url_decode_encode:
  assumes "\<forall>b \<in> set bs. b < 256"
  shows "base64url_decode (base64url bs) = bs"
  using assms
proof (induction bs rule: base64url.induct)
  case (1 a b c bs)
  then have abc: "a < 256" "b < 256" "c < 256"
    by simp_all
  then have "a * 65536 + b * 256 + c < 16777216"
    by simp
  from sextet_quad [OF this] triple_bytes [OF abc] 1 show ?case
    by (simp add: Let_def)
next
  case (2 a b)
  then have ab: "a < 256" "b < 256" "(0 :: nat) < 256"
    by simp_all
  then have "a * 65536 + b * 256 + 0 < 16777216"
    by simp
  from sextet_quad [OF this] triple_bytes [OF ab] show ?case
    by (simp add: Let_def sextet_nth)
next
  case (3 a)
  then have ab: "a < 256" "(0 :: nat) < 256" "(0 :: nat) < 256"
    by simp_all
  then have "a * 65536 + 0 * 256 + 0 < 16777216"
    by simp
  from sextet_quad [OF this] triple_bytes [OF ab] show ?case
    by (simp add: Let_def sextet_nth)
next
  case 4
  show ?case by simp
qed

text \<open>
  Two published values, computed by rewriting: the digest of \<^verbatim>\<open>abc\<close> (FIPS 180-4) and
  the challenge of the verifier of RFC 7636, appendix B.
\<close>

lemma replicate_num: "replicate (numeral k) x = x # replicate (pred_numeral k) x"
  by (simp add: numeral_eq_Suc)

lemmas sha_defs =
  SHA256_def pad_def compress_def K256_def H256_def next_word_def bytes32_def
  sigma0_def sigma1_def Sigma0_def Sigma1_def Ch_def Maj_def rotr_def shr_def add32_def not32_def

lemma SHA256_abc:
  "SHA256 (map of_char ''abc'') =
     [186, 120, 22, 191, 143, 1, 207, 234, 65, 65, 64, 222, 93, 174, 34, 35,
      176, 3, 97, 163, 150, 23, 122, 156, 180, 16, 255, 97, 242, 0, 21, 173]"
  by (simp add: sha_defs replicate_num)

lemma challenge_rfc7636:
  "generateCodeChallenge ''dBjftJeZ4CVP-mB92K27uhbUJU1p1r_wW1gFWFOEjXk'' =
     ''E9Melhoa2OwvFrEMTJguCHaoeK1t8URWbuGJSstw-cM''"
  by (simp add: generateCodeChallenge_def sha_defs replicate_num alphabet_def)

subsection \<open>A key with no record\<close>

lemma get_absent:
  assumes "fst (entry st k w) = None"
    and "k \<noteq> ''signInSession'' \<or> no_legacy st w"
  shows "getItem p st k w = Inr None"
proof (cases st)
  case (SecureStorage i)
  with assms(1) show ?thesis
    by (simp add: SecureStorage_getItem_def truthy_None)
next
  case (BrowserStorage a)
  with assms show ?thesis
    by (auto simp add: BrowserStorage_getItem_def no_legacy_def split: if_splits)
qed

section \<open>The claims\<close>

subsection \<open>The token stores\<close>

text \<open>
  Claim C2, as stated for all keys, fails on the browser store: \<open>getItem\<close> of the
  sign-in session falls back to the legacy key \<^verbatim>\<open>salesforce_auth:<appId>\<close>, which no
  call of the store writes or removes.  In a browser whose session medium holds a value
  under that key, \<open>getItem\<close> of the never-written session key returns that value, and
  so it does after \<open>setItem\<close> and \<open>removeItem\<close> of the session key.
\<close>

theorem legacy_session_read_back:
  "entry (BrowserStorage ''C1'') ''signInSession'' legacy_world = (None, None) \<and>
   getItem web_platform (BrowserStorage ''C1'') ''signInSession'' legacy_world
     = Inr (Some ''OLD'') \<and>
   getItem web_platform (BrowserStorage ''C1'') ''signInSession''
     (setItem web_platform (BrowserStorage ''C1'') ''signInSession'' ''S1'' legacy_world)
     = Inr (Some ''S1'') \<and>
   getItem web_platform (BrowserStorage ''C1'') ''signInSession''
     (removeItem (BrowserStorage ''C1'') ''signInSession''
        (setItem web_platform (BrowserStorage ''C1'') ''signInSession'' ''S1'' legacy_world))
     = Inr (Some ''OLD'')"
  by (simp add: BrowserStorage_getItem_def BrowserStorage_setItem_def BrowserStorage_removeItem_def
      legacy_world_def empty_world_def getKey_def keyPrefix_def)

text \<open>
  Claim C2, amended.  For both token stores, on a platform whose cipher decrypts what it
  encrypted:
  \<^item> \<open>getItem k\<close> right after \<open>setItem k s\<close> returns \<open>s\<close>, in any world and for any key;
  \<^item> after any sequence of \<open>setItem\<close> and \<open>removeItem\<close> calls on empty media, \<open>getItem k\<close>
    returns what the dictionary described by the sequence holds under \<open>k\<close>: \<^verbatim>\<open>null\<close> for
    a key the sequence never set, and \<^verbatim>\<open>null\<close> after \<open>removeItem k\<close>;
  \<^item> in any world, for every key but the browser store's sign-in session, and for that
    key too when the session medium has nothing under the legacy key, \<open>getItem k\<close>
    returns \<^verbatim>\<open>null\<close> after \<open>removeItem k\<close> and when the media hold no record under \<open>k\<close>;
  \<^item> a second \<open>removeItem k\<close> leaves the world as the first one left it, in any world.
\<close>

theorem token_store_round_trip:
  assumes "platform_ok p"
  shows "getItem p st k (setItem p st k s w) = Inr (Some s) \<and>
         getItem p st k (calls p st cs empty_world) = Inr (dictionary cs k) \<and>
         ((\<forall>v. SetItem k v \<notin> set cs) \<longrightarrow> getItem p st k (calls p st cs empty_world) = Inr None) \<and>
         getItem p st k (removeItem st k (calls p st cs empty_world)) = Inr None \<and>
         ((k \<noteq> ''signInSession'' \<or> no_legacy st w) \<longrightarrow>
            getItem p st k (removeItem st k w) = Inr None \<and>
            (fst (entry st k w) = None \<longrightarrow> getItem p st k w = Inr None)) \<and>
         removeItem st k (removeItem st k w) = removeItem st k w"
proof -
  have g: "(k \<noteq> ''signInSession'' \<or> no_legacy st w) \<longrightarrow>
            getItem p st k (removeItem st k w) = Inr None \<and>
            (fst (entry st k w) = None \<longrightarrow> getItem p st k w = Inr None)"
    using get_remove_same [of k st w p] get_absent [of st k w p] by blast
  from assms g show ?thesis
    by (simp add: get_set_same store_refines_dictionary dictionary_unwritten get_remove_same
        no_legacy_calls remove_idem)
qed

theorem token_store_round_trip_witness:
  "platform_ok native_platform \<and>
   getItem native_platform (SecureStorage ''salesforce.C1'') ''accessToken''
     (setItem native_platform (SecureStorage ''salesforce.C1'') ''accessToken'' ''AT1'' empty_world)
     = Inr (Some ''AT1'') \<and>
   getItem native_platform (SecureStorage ''salesforce.C1'') ''accessToken''
     (calls native_platform (SecureStorage ''salesforce.C1'')
        [SetItem ''refreshToken'' ''RT1'', RemoveItem ''refreshToken''] empty_world) = Inr None \<and>
   getItem web_platform (BrowserStorage ''C1'') ''signInSession''
     (removeItem (BrowserStorage ''C1'') ''signInSession''
        (calls web_platform (BrowserStorage ''C1'') [SetItem ''signInSession'' ''S1''] empty_world))
     = Inr None \<and>
   getItem web_platform (BrowserStorage ''C1'') ''accessToken''
     (removeItem (BrowserStorage ''C1'') ''accessToken''
        (setItem web_platform (BrowserStorage ''C1'') ''accessToken'' ''AT1'' legacy_world))
     = Inr None \<and>
   getItem web_platform (BrowserStorage ''C1'') ''refreshToken'' legacy_world = Inr None"
proof -
  have e: "fst (entry (BrowserStorage ''C1'') ''refreshToken'' legacy_world) = None"
    by (simp add: legacy_world_def empty_world_def)
  from token_store_round_trip [OF native_platform_ok, of "SecureStorage ''salesforce.C1''"
      "''accessToken''" "''AT1''" empty_world
      "[SetItem ''refreshToken'' ''RT1'', RemoveItem ''refreshToken'']"]
    token_store_round_trip [OF web_platform_ok, of "BrowserStorage ''C1''"
      "''signInSession''" "''S1''" empty_world "[SetItem ''signInSession'' ''S1'']"]
    token_store_round_trip [OF web_platform_ok, of "BrowserStorage ''C1''"
      "''accessToken''" "''AT1''"
      "setItem web_platform (BrowserStorage ''C1'') ''accessToken'' ''AT1'' legacy_world" "[]"]
    token_store_round_trip [OF web_platform_ok, of "BrowserStorage ''C1''"
      "''refreshToken''" "''RT1''" legacy_world "[]"]
    native_platform_ok e
  show ?thesis
    by (simp add: dictionary_def)
qed

text \<open>
  Claim C3.  In the encrypted store, when the ciphertext of a key is on the general-purpose
  medium and the secure element holds no encryption key for it, \<open>getItem\<close> returns
  \<^verbatim>\<open>null\<close>: it neither throws nor returns the value once stored.  The witness writes
  \<^verbatim>\<open>AT1\<close>, reads it back, deletes the key in the secure element only, and reads again.
\<close>

theorem secure_store_key_loss:
  assumes "AsyncStorage w (getStorageKey ident k) = Some ct"
    and "SecureStore w (getStorageKey ident k) = None"
  shows "getItem p (SecureStorage ident) k w = Inr None"
  using assms
  by (simp add: SecureStorage_getItem_def decrypt_def truthy_def)

theorem secure_store_key_loss_witness:
  "getItem native_platform (SecureStorage ''salesforce.C1'') ''accessToken'' written_world
     = Inr (Some ''AT1'') \<and>
   AsyncStorage key_lost_world (getStorageKey ''salesforce.C1'' ''accessToken'')
     = Some (''dBjftJeZ4CVP-mB92K27uhbUJU1p1r_wW1gFWFOEjXk'' @ ''#'' @ ''AT1'') \<and>
   SecureStore key_lost_world (getStorageKey ''salesforce.C1'' ''accessToken'') = None \<and>
   getItem native_platform (SecureStorage ''salesforce.C1'') ''accessToken'' key_lost_world
     = Inr None"
proof -
  have a: "AsyncStorage key_lost_world (getStorageKey ''salesforce.C1'' ''accessToken'')
     = Some (''dBjftJeZ4CVP-mB92K27uhbUJU1p1r_wW1gFWFOEjXk'' @ ''#'' @ ''AT1'')"
    by (simp add: key_lost_world_def written_world_def SecureStorage_setItem_def encrypt_def
        generateRandomString_def native_platform_def demo_encrypt_def demo_random_def
        defaultLength_def empty_world_def Let_def)
  have b: "SecureStore key_lost_world (getStorageKey ''salesforce.C1'' ''accessToken'') = None"
    by (simp add: key_lost_world_def)
  have c: "getItem native_platform (SecureStorage ''salesforce.C1'') ''accessToken'' written_world
     = Inr (Some ''AT1'')"
    unfolding written_world_def by (rule get_set_same [OF native_platform_ok])
  from secure_store_key_loss [OF a b, of native_platform] a b c show ?thesis
    by simp
qed

subsection \<open>Sign-in and the token exchange\<close>

text \<open>
  Claim C1, as stated, fails: the code checks \<^verbatim>\<open>!code\<close>, which also holds of an empty
  \<^verbatim>\<open>code\<close> parameter.  When the redirect is \<^verbatim>\<open>?code=&state=<nonce>\<close>, the query has a
  \<^verbatim>\<open>code\<close> parameter and its \<^verbatim>\<open>state\<close> equals the generated nonce, and yet \<open>signIn\<close>
  fails with \<^verbatim>\<open>invalid_state\<close>.
\<close>

theorem empty_code_is_invalid_state:
  "signIn_session web_platform browser_empty_code web_client empty_world =
     success (Redirect [(''code'', []), (''state'', ''0123456789abcdef'')]) \<and>
   searchParams_get [(''code'', []), (''state'', ''0123456789abcdef'')] ''code'' = Some [] \<and>
   searchParams_get [(''code'', []), (''state'', ''0123456789abcdef'')] ''state''
     = Some (signIn_state web_platform empty_world) \<and>
   signIn web_platform browser_empty_code issuer_both web_client empty_world =
     (Inl (SalesforceAuthError invalid_state), signIn_world web_platform empty_world)"
  by (simp add: signIn_eq session_empty_code web_state searchParams_get_def truthy_def)

text \<open>
  Claim C1, amended.  When the browser session resolves with \<^verbatim>\<open>success\<close> and a URL
  that parses, \<open>signIn\<close> fails with \<^verbatim>\<open>invalid_state\<close> exactly when the query has no
  \<^verbatim>\<open>code\<close> parameter, or its first \<^verbatim>\<open>code\<close> parameter is empty, or its first \<^verbatim>\<open>state\<close>
  parameter is missing or differs from the nonce generated in this call; otherwise
  \<open>signIn\<close> is the token exchange with that code, the generated verifier and the
  redirect URI, and the exchange never fails with \<^verbatim>\<open>invalid_state\<close>.
\<close>

theorem invalid_state_iff:
  assumes "signIn_session p browser c w = success (Redirect sp)"
  shows "(fst (signIn p browser fetch c w) = Inl (SalesforceAuthError invalid_state)
            \<longleftrightarrow> searchParams_get sp ''code'' = None \<or> searchParams_get sp ''code'' = Some [] \<or>
                searchParams_get sp ''state'' \<noteq> Some (signIn_state p w)) \<and>
         (if searchParams_get sp ''code'' = None \<or> searchParams_get sp ''code'' = Some [] \<or>
             searchParams_get sp ''state'' \<noteq> Some (signIn_state p w)
          then signIn p browser fetch c w
                 = (Inl (SalesforceAuthError invalid_state), signIn_world p w)
          else signIn p browser fetch c w
                 = exchangeCodeForToken p fetch c (the (searchParams_get sp ''code''))
                     (signIn_verifier p w) (signIn_redirect p c) (signIn_world p w))"
proof (cases "searchParams_get sp ''code'' = None \<or> searchParams_get sp ''code'' = Some [] \<or>
             searchParams_get sp ''state'' \<noteq> Some (signIn_state p w)")
  case True
  with assms have "signIn p browser fetch c w
      = (Inl (SalesforceAuthError invalid_state), signIn_world p w)"
    by (simp add: signIn_eq truthy_iff)
  with True show ?thesis by simp
next
  case False
  then obtain y where y: "searchParams_get sp ''code'' = Some y" "y \<noteq> []"
    and st: "searchParams_get sp ''state'' = Some (signIn_state p w)"
    by (cases "searchParams_get sp ''code''") auto
  with assms have "signIn p browser fetch c w
      = exchangeCodeForToken p fetch c y
          (signIn_verifier p w) (signIn_redirect p c) (signIn_world p w)"
    by (simp add: signIn_eq truthy_iff)
  with y st show ?thesis
    by (simp add: exchange_never_invalid_state)
qed

theorem invalid_state_iff_witness:
  "signIn_session web_platform browser_honest web_client empty_world =
     success (Redirect [(''code'', ''ABC123''), (''state'', ''0123456789abcdef'')]) \<and>
   signIn_state web_platform empty_world = ''0123456789abcdef'' \<and>
   signIn web_platform browser_honest issuer_both web_client empty_world =
     exchangeCodeForToken web_platform issuer_both web_client ''ABC123''
       (signIn_verifier web_platform empty_world) (signIn_redirect web_platform web_client)
       (signIn_world web_platform empty_world) \<and>
   fst (signIn web_platform browser_honest issuer_both web_client empty_world)
     \<noteq> Inl (SalesforceAuthError invalid_state)"
proof -
  note t = invalid_state_iff [where fetch = issuer_both and w = empty_world, OF session_honest]
  from t [THEN conjunct2] have eq: "signIn web_platform browser_honest issuer_both web_client empty_world =
     exchangeCodeForToken web_platform issuer_both web_client ''ABC123''
       (signIn_verifier web_platform empty_world) (signIn_redirect web_platform web_client)
       (signIn_world web_platform empty_world)"
    by (simp add: web_state searchParams_get_def)
  from t [THEN conjunct1] have neq: "fst (signIn web_platform browser_honest issuer_both web_client empty_world)
     \<noteq> Inl (SalesforceAuthError invalid_state)"
    by (simp add: web_state searchParams_get_def)
  from eq neq show ?thesis
    by (simp add: session_honest web_state)
qed

text \<open>
  Claim C4, as stated, fails: the code stores the refresh token under \<^verbatim>\<open>if (data.refresh_token)\<close>,
  so a response whose \<^verbatim>\<open>refresh_token\<close> is present and empty stores nothing under
  the refresh key.
\<close>

theorem empty_refresh_token_not_stored:
  "issuer_empty_refresh (token_request web_client ''ABC123'' ''v'' ''app://cb'')
     = Response True \<lparr>access_token = ''AT1'', refresh_token = Some []\<rparr> \<and>
   fst (exchangeCodeForToken web_platform issuer_empty_refresh web_client ''ABC123'' ''v''
          ''app://cb'' empty_world) = Inr () \<and>
   getItem web_platform (storage web_client) ''refreshToken''
     (snd (exchangeCodeForToken web_platform issuer_empty_refresh web_client ''ABC123'' ''v''
          ''app://cb'' empty_world)) = Inr None"
proof -
  have a: "issuer_empty_refresh (token_request web_client ''ABC123'' ''v'' ''app://cb'')
     = Response True \<lparr>access_token = ''AT1'', refresh_token = Some []\<rparr>"
    by (simp add: issuer_empty_refresh_def)
  show ?thesis
    by (simp add: a exchange_ok [where fetch = issuer_empty_refresh, OF a] truthy_def
        get_set_other getItem_stores [OF stores_network] getItem_empty)
qed

text \<open>
  Claim C4, amended.  The token exchange sends one request.  If the response is not a
  success, the exchange fails with \<^verbatim>\<open>token_exchange_failed\<close>, the one request is all
  that was sent, and the world is otherwise as before.  If the response is a success, the
  exchange returns, the access token of the response can be read back under the access
  key, and the refresh token of the response is stored under the refresh key when it is
  present and not empty; otherwise the record under the refresh key is left as it was.
\<close>

theorem exchange_stores_tokens:
  assumes "platform_ok p"
    and "fetch (token_request c code v r) = Response ok d"
  shows "if ok
     then fst (exchangeCodeForToken p fetch c code v r w) = Inr () \<and>
          network (snd (exchangeCodeForToken p fetch c code v r w))
            = network w @ [token_request c code v r] \<and>
          getItem p (storage c) ''accessToken'' (snd (exchangeCodeForToken p fetch c code v r w))
            = Inr (Some (access_token d)) \<and>
          (if truthy (refresh_token d)
           then getItem p (storage c) ''refreshToken''
                  (snd (exchangeCodeForToken p fetch c code v r w)) = Inr (refresh_token d)
           else entry (storage c) ''refreshToken'' (snd (exchangeCodeForToken p fetch c code v r w))
                  = entry (storage c) ''refreshToken'' w)
     else exchangeCodeForToken p fetch c code v r w =
            (Inl (SalesforceAuthError token_exchange_failed),
             w\<lparr>network := network w @ [token_request c code v r]\<rparr>)"
proof (cases ok)
  case False
  with assms(2) show ?thesis
    by (simp add: exchange_not_ok)
next
  case True
  with assms(2) have f: "fetch (token_request c code v r) = Response True d"
    by simp
  show ?thesis
  proof (cases "truthy (refresh_token d)")
    case yes: True
    then obtain t where t: "refresh_token d = Some t"
      by (cases "refresh_token d") (simp_all add: truthy_None)
    from yes t True assms(1) show ?thesis
      by (simp add: exchange_ok [where fetch = fetch, OF f] network_setItem get_set_same get_set_other)
  next
    case no: False
    from no True assms(1) show ?thesis
      by (simp add: exchange_ok [where fetch = fetch, OF f] network_setItem get_set_same entry_set_other
          entry_stores [OF stores_network])
  qed
qed

theorem exchange_stores_tokens_witness:
  "platform_ok web_platform \<and>
   issuer_both (token_request web_client ''ABC123'' ''v'' ''app://cb'')
     = Response True \<lparr>access_token = ''AT1'', refresh_token = Some ''RT1''\<rparr> \<and>
   fst (exchangeCodeForToken web_platform issuer_both web_client ''ABC123'' ''v'' ''app://cb''
          empty_world) = Inr () \<and>
   network (snd (exchangeCodeForToken web_platform issuer_both web_client ''ABC123'' ''v''
          ''app://cb'' empty_world)) = [token_request web_client ''ABC123'' ''v'' ''app://cb''] \<and>
   getItem web_platform (storage web_client) ''accessToken''
     (snd (exchangeCodeForToken web_platform issuer_both web_client ''ABC123'' ''v'' ''app://cb''
          empty_world)) = Inr (Some ''AT1'') \<and>
   getItem web_platform (storage web_client) ''refreshToken''
     (snd (exchangeCodeForToken web_platform issuer_both web_client ''ABC123'' ''v'' ''app://cb''
          empty_world)) = Inr (Some ''RT1'') \<and>
   exchangeCodeForToken web_platform issuer_denies web_client ''ABC123'' ''v'' ''app://cb''
          empty_world =
     (Inl (SalesforceAuthError token_exchange_failed),
      empty_world\<lparr>network := [token_request web_client ''ABC123'' ''v'' ''app://cb'']\<rparr>)"
proof -
  have a: "issuer_both (token_request web_client ''ABC123'' ''v'' ''app://cb'')
     = Response True \<lparr>access_token = ''AT1'', refresh_token = Some ''RT1''\<rparr>"
    by (simp add: issuer_both_def)
  have b: "issuer_denies (token_request web_client ''ABC123'' ''v'' ''app://cb'')
     = Response False \<lparr>access_token = [], refresh_token = None\<rparr>"
    by (simp add: issuer_denies_def)
  from exchange_stores_tokens [where fetch = issuer_both and w = empty_world, OF web_platform_ok a]
    exchange_stores_tokens [where fetch = issuer_denies and w = empty_world, OF web_platform_ok b]
    web_platform_ok a
  show ?thesis
    by (simp add: truthy_def empty_world_def)
qed

text \<open>
  Claim C7.  Whenever \<open>signIn\<close> fails, the four media of the token store are as they were
  before the call, \<open>isAuthenticated\<close> answers as it did before, and it answers false when
  the media were empty.  The failure is one of \<^verbatim>\<open>auth_session_failed\<close>, \<^verbatim>\<open>invalid_state\<close>,
  \<^verbatim>\<open>token_exchange_failed\<close> or the \<^verbatim>\<open>TypeError\<close> of a malformed redirect URL or a
  rejected request.  The witness is the spec's scenario of the tampered state.
\<close>

theorem signIn_failure_leaves_store:
  assumes "signIn p browser fetch c w = (Inl e, w')"
  shows "stores w' = stores w \<and>
         fst (isAuthenticated p c w') = fst (isAuthenticated p c w) \<and>
         (stores w = stores empty_world \<longrightarrow> isAuthenticated p c w' = (Inr False, w')) \<and>
         e \<in> {SalesforceAuthError auth_session_failed, SalesforceAuthError invalid_state,
               SalesforceAuthError token_exchange_failed, TypeError}"
proof -
  from signIn_failure [OF assms] have s: "stores w' = stores w"
    and k: "e \<in> {SalesforceAuthError auth_session_failed, SalesforceAuthError invalid_state,
               SalesforceAuthError token_exchange_failed, TypeError}"
    by simp_all
  have e: "stores w = stores empty_world \<longrightarrow> isAuthenticated p c w' = (Inr False, w')"
    using s by (simp add: isAuthenticated_empty)
  from s k e isAuthenticated_stores [OF s, of p c] show ?thesis
    by simp
qed

theorem signIn_failure_leaves_store_witness:
  "signIn web_platform browser_tampered issuer_both web_client empty_world =
     (Inl (SalesforceAuthError invalid_state), signIn_world web_platform empty_world) \<and>
   stores (signIn_world web_platform empty_world) = stores empty_world \<and>
   isAuthenticated web_platform web_client (signIn_world web_platform empty_world) =
     (Inr False, signIn_world web_platform empty_world)"
proof -
  have a: "signIn web_platform browser_tampered issuer_both web_client empty_world =
     (Inl (SalesforceAuthError invalid_state), signIn_world web_platform empty_world)"
    by (simp add: signIn_eq session_tampered web_state searchParams_get_def truthy_def)
  from signIn_failure_leaves_store [OF a] a show ?thesis
    by simp
qed

text \<open>
  Claim C10.  When the response of the token endpoint is a success without a refresh
  token, the exchange returns, the new access token is read back under the access key,
  and the record under the refresh key is untouched on the media, so that reading the
  refresh key gives what it gave before.  In the witness a second exchange after the
  happy path replaces \<^verbatim>\<open>AT1\<close> by \<^verbatim>\<open>AT2\<close> and \<^verbatim>\<open>RT1\<close> stays.
\<close>

theorem exchange_without_refresh_token_keeps_old:
  assumes "platform_ok p"
    and "fetch (token_request c code v r) = Response True d"
    and "refresh_token d = None"
  shows "fst (exchangeCodeForToken p fetch c code v r w) = Inr () \<and>
     getItem p (storage c) ''accessToken'' (snd (exchangeCodeForToken p fetch c code v r w))
       = Inr (Some (access_token d)) \<and>
     entry (storage c) ''refreshToken'' (snd (exchangeCodeForToken p fetch c code v r w))
       = entry (storage c) ''refreshToken'' w \<and>
     getItem p (storage c) ''refreshToken'' (snd (exchangeCodeForToken p fetch c code v r w))
       = getItem p (storage c) ''refreshToken'' w"
  using assms(1,3)
  by (simp add: exchange_ok [where fetch = fetch, OF assms(2)] truthy_None get_set_same
      get_set_other entry_set_other entry_stores [OF stores_network]
      getItem_stores [OF stores_network])

theorem exchange_without_refresh_token_keeps_old_witness:
  "platform_ok web_platform \<and>
   issuer_access_only (token_request web_client ''DEF456'' ''v'' ''app://cb'')
     = Response True \<lparr>access_token = ''AT2'', refresh_token = None\<rparr> \<and>
   getItem web_platform (storage web_client) ''accessToken'' signed_in_world = Inr (Some ''AT1'') \<and>
   getItem web_platform (storage web_client) ''refreshToken'' signed_in_world = Inr (Some ''RT1'') \<and>
   getItem web_platform (storage web_client) ''accessToken''
     (snd (exchangeCodeForToken web_platform issuer_access_only web_client ''DEF456'' ''v''
        ''app://cb'' signed_in_world)) = Inr (Some ''AT2'') \<and>
   getItem web_platform (storage web_client) ''refreshToken''
     (snd (exchangeCodeForToken web_platform issuer_access_only web_client ''DEF456'' ''v''
        ''app://cb'' signed_in_world)) = Inr (Some ''RT1'')"
proof -
  have a: "issuer_access_only (token_request web_client ''DEF456'' ''v'' ''app://cb'')
     = Response True \<lparr>access_token = ''AT2'', refresh_token = None\<rparr>"
    by (simp add: issuer_access_only_def)
  from exchange_without_refresh_token_keeps_old
    [where fetch = issuer_access_only and w = signed_in_world, OF web_platform_ok a]
    a web_platform_ok signed_in_world_tokens
  show ?thesis
    by simp
qed

subsection \<open>The session\<close>

text \<open>
  Claim C5, as stated, fails: \<open>isAuthenticated\<close> is \<^verbatim>\<open>Boolean(getItem("accessToken"))\<close>, false
  of the empty string.  After a sign-in whose token response carries an empty
  \<^verbatim>\<open>access_token\<close>, the store holds a value under the access key and \<open>isAuthenticated\<close>
  answers false.
\<close>

theorem empty_access_token_not_authenticated:
  "reachable web_platform web_client empty_token_world \<and>
   localStorage empty_token_world ''salesforce_auth:C1:accessToken'' = Some [] \<and>
   getItem web_platform (storage web_client) ''accessToken'' empty_token_world = Inr (Some []) \<and>
   isAuthenticated web_platform web_client empty_token_world = (Inr False, empty_token_world)"
proof -
  from empty_token_world_token
  have "localStorage empty_token_world ''salesforce_auth:C1:accessToken'' = Some []"
    by (simp add: web_storage BrowserStorage_getItem_def getKey_def keyPrefix_def)
  with empty_token_world_reachable empty_token_world_token show ?thesis
    by (simp add: isAuthenticated_def truthy_def)
qed

text \<open>
  Claim C5, amended.  In every reachable world (the cipher and the random source being as
  assumed), reading the access key succeeds, and \<open>isAuthenticated\<close> answers true exactly
  when the value read is present and not the empty string; it returns the world it was
  given, so it sends no request and writes nothing.
\<close>

theorem isAuthenticated_iff:
  assumes "platform_ok p" and "reachable p c w"
  shows "\<exists>a. getItem p (storage c) ''accessToken'' w = Inr a \<and>
           isAuthenticated p c w = (Inr (a \<noteq> None \<and> a \<noteq> Some []), w)"
proof -
  from reachable_tokens [OF assms] obtain a
    where a: "getItem p (storage c) ''accessToken'' w = Inr a"
    by blast
  then have "isAuthenticated p c w = (Inr (a \<noteq> None \<and> a \<noteq> Some []), w)"
    by (simp add: isAuthenticated_def truthy_iff)
  with a show ?thesis
    by simp
qed

theorem isAuthenticated_iff_witness:
  "platform_ok web_platform \<and> reachable web_platform web_client signed_in_world \<and>
   getItem web_platform (storage web_client) ''accessToken'' signed_in_world = Inr (Some ''AT1'') \<and>
   isAuthenticated web_platform web_client signed_in_world = (Inr True, signed_in_world) \<and>
   isAuthenticated web_platform web_client empty_world = (Inr False, empty_world)"
proof -
  from isAuthenticated_iff [OF web_platform_ok signed_in_world_reachable]
  have a: "isAuthenticated web_platform web_client signed_in_world = (Inr True, signed_in_world)"
    by (simp add: signed_in_world_tokens)
  from isAuthenticated_iff [OF web_platform_ok reachable.start, of web_client]
  have b: "isAuthenticated web_platform web_client empty_world = (Inr False, empty_world)"
    by (simp add: getItem_empty)
  from a b web_platform_ok signed_in_world_reachable signed_in_world_tokens show ?thesis
    by simp
qed

text \<open>
  Claim C6, as stated, fails: when the revocation request is rejected (the network is
  down), \<open>signOut\<close> throws after the request and removes neither token.
\<close>

theorem revocation_unreachable_keeps_tokens:
  "getItem web_platform (storage web_client) ''accessToken'' signed_in_world = Inr (Some ''AT1'') \<and>
   fst (signOut web_platform revocation_unreachable web_client signed_in_world) = Inl TypeError \<and>
   network (snd (signOut web_platform revocation_unreachable web_client signed_in_world))
     = network signed_in_world @ [revoke_request web_client ''AT1''] \<and>
   getItem web_platform (storage web_client) ''accessToken''
     (snd (signOut web_platform revocation_unreachable web_client signed_in_world))
     = Inr (Some ''AT1'') \<and>
   getItem web_platform (storage web_client) ''refreshToken''
     (snd (signOut web_platform revocation_unreachable web_client signed_in_world))
     = Inr (Some ''RT1'')"
proof -
  have "signOut web_platform revocation_unreachable web_client signed_in_world =
      (Inl TypeError,
       signed_in_world\<lparr>network := network signed_in_world @ [revoke_request web_client ''AT1'']\<rparr>)"
    by (simp add: signOut_def signed_in_world_tokens truthy_Some revocation_unreachable_def)
  then show ?thesis
    by (simp add: signed_in_world_tokens getItem_stores [OF stores_network])
qed

text \<open>
  Claim C6, amended.  In every reachable world:
  \<^item> when reading the access key gives \<^verbatim>\<open>null\<close> or the empty string, \<open>signOut\<close> returns
    and leaves the world as it is (no request, nothing written), a second \<open>signOut\<close>
    does the same, and when the access key is absent so is the refresh key;
  \<^item> when a non-empty access token is stored, \<open>signOut\<close> sends one request, the
    revocation request with that token; if the request gets a response, whatever its
    status, \<open>signOut\<close> returns, the records under the access and the refresh key are
    gone from the media, and a second \<open>signOut\<close> returns and changes nothing; if the
    request is rejected, \<open>signOut\<close> fails and the media are as before.
\<close>

theorem signOut_cases:
  assumes "platform_ok p" and "reachable p c w"
  shows "\<exists>tok. getItem p (storage c) ''accessToken'' w = Inr tok \<and>
     (if tok \<noteq> None \<and> tok \<noteq> Some []
      then network (snd (signOut p fetch c w)) = network w @ [revoke_request c (the tok)] \<and>
           (case fetch (revoke_request c (the tok)) of
              Rejected \<Rightarrow>
                fst (signOut p fetch c w) = Inl TypeError \<and>
                stores (snd (signOut p fetch c w)) = stores w
            | Response ok d \<Rightarrow>
                fst (signOut p fetch c w) = Inr () \<and>
                entry (storage c) ''accessToken'' (snd (signOut p fetch c w)) = (None, None) \<and>
                entry (storage c) ''refreshToken'' (snd (signOut p fetch c w)) = (None, None) \<and>
                signOut p fetch' c (snd (signOut p fetch c w))
                  = (Inr (), snd (signOut p fetch c w)))
      else signOut p fetch c w = (Inr (), w) \<and>
           signOut p fetch' c (snd (signOut p fetch c w)) = (Inr (), w) \<and>
           (tok = None \<longrightarrow> getItem p (storage c) ''refreshToken'' w = Inr None))"
proof -
  from reachable_tokens [OF assms] obtain tok r
    where tok: "getItem p (storage c) ''accessToken'' w = Inr tok"
      and r: "getItem p (storage c) ''refreshToken'' w = Inr r" "tok = None \<longrightarrow> r = None"
    by blast
  have "if tok \<noteq> None \<and> tok \<noteq> Some []
      then network (snd (signOut p fetch c w)) = network w @ [revoke_request c (the tok)] \<and>
           (case fetch (revoke_request c (the tok)) of
              Rejected \<Rightarrow>
                fst (signOut p fetch c w) = Inl TypeError \<and>
                stores (snd (signOut p fetch c w)) = stores w
            | Response ok d \<Rightarrow>
                fst (signOut p fetch c w) = Inr () \<and>
                entry (storage c) ''accessToken'' (snd (signOut p fetch c w)) = (None, None) \<and>
                entry (storage c) ''refreshToken'' (snd (signOut p fetch c w)) = (None, None) \<and>
                signOut p fetch' c (snd (signOut p fetch c w))
                  = (Inr (), snd (signOut p fetch c w)))
      else signOut p fetch c w = (Inr (), w) \<and>
           signOut p fetch' c (snd (signOut p fetch c w)) = (Inr (), w) \<and>
           (tok = None \<longrightarrow> getItem p (storage c) ''refreshToken'' w = Inr None)"
  proof (cases "tok \<noteq> None \<and> tok \<noteq> Some []")
    case False
    then have f: "\<not> truthy tok"
      by (simp add: truthy_iff)
    with tok have "signOut p fetch c w = (Inr (), w)" and "signOut p fetch' c w = (Inr (), w)"
      by (simp_all add: signOut_def)
    with False r show ?thesis
      by auto
  next
    case True
    then obtain t where t: "tok = Some t" "t \<noteq> []"
      by (cases tok) simp_all
    show ?thesis
    proof (cases "fetch (revoke_request c t)")
      case Rejected
      with tok t show ?thesis
        by (simp add: signOut_def truthy_def Let_def stores_network)
    next
      case (Response ok d)
      let ?w' = "removeItem (storage c) ''refreshToken''
                   (removeItem (storage c) ''accessToken''
                      (w\<lparr>network := network w @ [revoke_request c t]\<rparr>))"
      from Response tok t have so: "signOut p fetch c w = (Inr (), ?w')"
        by (simp add: signOut_def truthy_def Let_def)
      have g: "getItem p (storage c) ''accessToken'' ?w' = Inr None"
        by (simp add: get_remove_same get_remove_other)
      then have again: "signOut p fetch' c ?w' = (Inr (), ?w')"
        by (simp add: signOut_def truthy_None)
      have e: "entry (storage c) ''accessToken'' ?w' = (None, None)"
        "entry (storage c) ''refreshToken'' ?w' = (None, None)"
        by (simp_all add: entry_remove_same entry_remove_other)
      from so again e Response t show ?thesis
        by (simp add: network_removeItem)
    qed
  qed
  with tok show ?thesis
    by blast
qed

theorem signOut_cases_witness:
  "platform_ok web_platform \<and> reachable web_platform web_client signed_in_world \<and>
   getItem web_platform (storage web_client) ''accessToken'' signed_in_world = Inr (Some ''AT1'') \<and>
   fst (signOut web_platform revocation_answers web_client signed_in_world) = Inr () \<and>
   network (snd (signOut web_platform revocation_answers web_client signed_in_world))
     = network signed_in_world @ [revoke_request web_client ''AT1''] \<and>
   entry (storage web_client) ''accessToken''
     (snd (signOut web_platform revocation_answers web_client signed_in_world)) = (None, None) \<and>
   entry (storage web_client) ''refreshToken''
     (snd (signOut web_platform revocation_answers web_client signed_in_world)) = (None, None) \<and>
   signOut web_platform revocation_answers web_client
     (snd (signOut web_platform revocation_answers web_client signed_in_world))
     = (Inr (), snd (signOut web_platform revocation_answers web_client signed_in_world)) \<and>
   signOut web_platform revocation_answers web_client empty_world = (Inr (), empty_world)"
proof -
  from signOut_cases [OF web_platform_ok signed_in_world_reachable,
      where fetch = revocation_answers and fetch' = revocation_answers]
  have a: "fst (signOut web_platform revocation_answers web_client signed_in_world) = Inr () \<and>
   network (snd (signOut web_platform revocation_answers web_client signed_in_world))
     = network signed_in_world @ [revoke_request web_client ''AT1''] \<and>
   entry (storage web_client) ''accessToken''
     (snd (signOut web_platform revocation_answers web_client signed_in_world)) = (None, None) \<and>
   entry (storage web_client) ''refreshToken''
     (snd (signOut web_platform revocation_answers web_client signed_in_world)) = (None, None) \<and>
   signOut web_platform revocation_answers web_client
     (snd (signOut web_platform revocation_answers web_client signed_in_world))
     = (Inr (), snd (signOut web_platform revocation_answers web_client signed_in_world))"
    by (simp add: signed_in_world_tokens revocation_answers_def)
  from signOut_cases [OF web_platform_ok reachable.start,
      where fetch = revocation_answers and fetch' = revocation_answers and c = web_client]
  have b: "signOut web_platform revocation_answers web_client empty_world = (Inr (), empty_world)"
    by (simp add: getItem_empty)
  from a b web_platform_ok signed_in_world_reachable signed_in_world_tokens show ?thesis
    by simp
qed

text \<open>
  Claim C8, as stated, fails: with the empty string stored under the access key, an
  access token value is present and \<open>getUserInfo\<close> fails with \<^verbatim>\<open>not_authenticated\<close>
  without sending a request.
\<close>

theorem empty_access_token_no_userinfo_request:
  "getItem web_platform (storage web_client) ''accessToken'' empty_token_world = Inr (Some []) \<and>
   getUserInfo web_platform userinfo_answers web_client empty_token_world =
     (Inl (SalesforceAuthError not_authenticated), empty_token_world)"
  by (simp add: getUserInfo_def empty_token_world_token truthy_def)

text \<open>
  Claim C8, amended.  Whenever reading the access key succeeds: if the value is \<^verbatim>\<open>null\<close>
  or the empty string, \<open>getUserInfo\<close> fails with \<^verbatim>\<open>not_authenticated\<close> and returns the
  world it was given (no request); otherwise it sends one request, a GET to the userinfo
  endpoint with the header \<^verbatim>\<open>Authorization: Bearer <token>\<close>, writes nothing, and fails
  with \<^verbatim>\<open>userinfo_request_failed\<close> when the response is not a success, returns the body
  when it is, and fails with the \<^verbatim>\<open>TypeError\<close> of \<^verbatim>\<open>fetch\<close> when the request is rejected.
\<close>

theorem getUserInfo_cases:
  assumes "getItem p (storage c) ''accessToken'' w = Inr tok"
  shows "if tok \<noteq> None \<and> tok \<noteq> Some []
     then network (snd (getUserInfo p fetch c w)) =
            network w @ [\<lparr>url = userInfoEndpoint c, method = ''GET'',
                          headers = [(''Authorization'', ''Bearer '' @ the tok)], body = []\<rparr>] \<and>
          stores (snd (getUserInfo p fetch c w)) = stores w \<and>
          fst (getUserInfo p fetch c w) =
            (case fetch (userinfo_request c (the tok)) of
               Rejected \<Rightarrow> Inl TypeError
             | Response ok d \<Rightarrow>
                 if ok then Inr d else Inl (SalesforceAuthError userinfo_request_failed))
     else getUserInfo p fetch c w = (Inl (SalesforceAuthError not_authenticated), w)"
  using assms
  by (simp add: getUserInfo_def truthy_iff Let_def userinfo_request_def stores_network
      split: fetch_result.splits)

theorem getUserInfo_cases_witness:
  "getItem web_platform (storage web_client) ''accessToken'' signed_in_world = Inr (Some ''AT1'') \<and>
   getUserInfo web_platform userinfo_answers web_client signed_in_world =
     (Inr demo_user,
      signed_in_world\<lparr>network := network signed_in_world @
        [\<lparr>url = ''https://login.salesforce.com/services/oauth2/userinfo'', method = ''GET'',
          headers = [(''Authorization'', ''Bearer AT1'')], body = []\<rparr>]\<rparr>) \<and>
   fst (getUserInfo web_platform userinfo_denies web_client signed_in_world) =
     Inl (SalesforceAuthError userinfo_request_failed) \<and>
   getUserInfo web_platform userinfo_answers web_client empty_world =
     (Inl (SalesforceAuthError not_authenticated), empty_world)"
proof -
  have e: "userInfoEndpoint web_client = ''https://login.salesforce.com/services/oauth2/userinfo''"
    by (simp add: scenario_defs)
  from getUserInfo_cases [where fetch = userinfo_answers, OF signed_in_world_tokens(1)]
  have a: "fst (getUserInfo web_platform userinfo_answers web_client signed_in_world)
      = Inr demo_user"
    and n: "network (snd (getUserInfo web_platform userinfo_answers web_client signed_in_world))
      = network signed_in_world @
        [\<lparr>url = ''https://login.salesforce.com/services/oauth2/userinfo'', method = ''GET'',
          headers = [(''Authorization'', ''Bearer AT1'')], body = []\<rparr>]"
    by (simp_all add: userinfo_answers_def e)
  from getUserInfo_cases [where fetch = userinfo_denies, OF signed_in_world_tokens(1)]
  have b: "fst (getUserInfo web_platform userinfo_denies web_client signed_in_world) =
     Inl (SalesforceAuthError userinfo_request_failed)"
    by (simp add: userinfo_denies_def)
  from getUserInfo_cases [where fetch = userinfo_answers and p = web_platform and c = web_client, OF getItem_empty]
  have c: "getUserInfo web_platform userinfo_answers web_client empty_world =
     (Inl (SalesforceAuthError not_authenticated), empty_world)"
    by simp
  have w: "getUserInfo web_platform userinfo_answers web_client signed_in_world =
     (Inr demo_user,
      signed_in_world\<lparr>network := network signed_in_world @
        [\<lparr>url = ''https://login.salesforce.com/services/oauth2/userinfo'', method = ''GET'',
          headers = [(''Authorization'', ''Bearer AT1'')], body = []\<rparr>]\<rparr>)"
    by (simp add: getUserInfo_def signed_in_world_tokens truthy_Some userinfo_request_def
        userinfo_answers_def e)
  from a n b c w signed_in_world_tokens show ?thesis
    by simp
qed

subsection \<open>The code challenge\<close>

text \<open>
  Claim C9.  \<open>generateCodeChallenge\<close> is a function of the verifier alone (it takes no
  world and draws nothing), so two calls with the same verifier give the same string.
  Its result is the base64url encoding of the SHA-256 digest of the verifier: the digest
  has 32 bytes and is what decoding the challenge gives back; the challenge has 43
  characters, all of the URL-safe alphabet, and no padding character.  On the verifier of
  RFC 7636, appendix B, it is the challenge printed there.
\<close>

theorem generateCodeChallenge_S256:
  "generateCodeChallenge v = base64url (SHA256 (map of_char v)) \<and>
   length (SHA256 (map of_char v)) = 32 \<and>
   base64url_decode (generateCodeChallenge v) = SHA256 (map of_char v) \<and>
   length (generateCodeChallenge v) = 43 \<and>
   set (generateCodeChallenge v) \<subseteq> set alphabet \<and>
   CHR ''='' \<notin> set (generateCodeChallenge v) \<and>
   generateCodeChallenge ''dBjftJeZ4CVP-mB92K27uhbUJU1p1r_wW1gFWFOEjXk'' =
     ''E9Melhoa2OwvFrEMTJguCHaoeK1t8URWbuGJSstw-cM''"
proof -
  have b: "\<forall>b \<in> set (SHA256 (map of_char v)). b < 256"
    by (simp add: SHA256_bound)
  have d: "base64url_decode (generateCodeChallenge v) = SHA256 (map of_char v)"
    unfolding generateCodeChallenge_def by (rule base64url_decode_encode [OF b])
  have p: "CHR ''='' \<notin> set (generateCodeChallenge v)"
    using challenge_shape [of v] alphabet_url_safe(1) by blast
  from d p challenge_shape [of v] challenge_rfc7636 length_SHA256 [of "map of_char v"]
  show ?thesis
    by (simp add: generateCodeChallenge_def)
qed

end
